theory Spec2Isabelle
  imports Main
begin

section \<open>Strings\<close>

text \<open>
  Strings are byte lists. Header names, URL components and the fixed texts of the proxy
  are ASCII; \<open>lower\<close> is the byte-lowercase used when header names are compared.
\<close>

definition lower_char :: "char \<Rightarrow> char" where
  "lower_char c =
     (let n = (of_char c :: nat) in if 65 \<le> n \<and> n \<le> 90 then char_of (n + 32) else c)"

definition lower :: "string \<Rightarrow> string" where
  "lower s = map lower_char s"

text \<open>\<open>Array.prototype.join\<close> on an array of strings.\<close>

fun join :: "string list \<Rightarrow> string \<Rightarrow> string" where
  "join [] sep = []"
| "join [x] sep = x"
| "join (x # y # ys) sep = x @ sep @ join (y # ys) sep"

section \<open>The header lists of index.ts\<close>

definition ALLOW_HEADERS :: "string list" where
  "ALLOW_HEADERS =
     [''accept-encoding'', ''accept-language'', ''accept'', ''access-control-allow-origin'',
      ''authorization'', ''cache-control'', ''connection'', ''content-length'',
      ''content-type'', ''dnt'', ''pragma'', ''range'', ''referer'', ''user-agent'',
      ''x-authorization'', ''x-http-method-override'', ''x-requested-with'']"

definition EXPOSE_HEADERS :: "string list" where
  "EXPOSE_HEADERS =
     [''accept-ranges'', ''age'', ''cache-control'', ''content-length'', ''content-language'',
      ''content-type'', ''date'', ''etag'', ''expires'', ''last-modified'', ''pragma'',
      ''server'', ''transfer-encoding'', ''vary'', ''x-github-request-id'',
      ''x-redirected-url'']"

section \<open>The Headers class\<close>

text \<open>
  A \<open>Headers\<close> object is a header list: (name, value) pairs in insertion order. Names
  are matched byte-case-insensitively. \<open>get\<close> joins the values stored under a name with
  a comma and a space and yields \<open>None\<close> (JavaScript \<open>null\<close>) when there is none;
  \<open>set\<close> overwrites the first entry of that name and removes the others, or appends a
  new entry; \<open>append\<close> adds an entry, reusing the spelling of an entry already there.
\<close>

type_synonym headers = "(string \<times> string) list"

definition name_eq :: "string \<Rightarrow> string \<Rightarrow> bool" where
  "name_eq a b = (lower a = lower b)"

definition headers_get :: "headers \<Rightarrow> string \<Rightarrow> string option" where
  "headers_get hs name =
     (case map snd (filter (\<lambda>h. name_eq (fst h) name) hs) of
        [] \<Rightarrow> None
      | v # vs \<Rightarrow> Some (join (v # vs) '', ''))"

definition headers_has :: "headers \<Rightarrow> string \<Rightarrow> bool" where
  "headers_has hs name = list_ex (\<lambda>h. name_eq (fst h) name) hs"

fun headers_set :: "headers \<Rightarrow> string \<Rightarrow> string \<Rightarrow> headers" where
  "headers_set [] name v = [(name, v)]"
| "headers_set (h # hs) name v =
     (if name_eq (fst h) name
      then (fst h, v) # filter (\<lambda>k. \<not> name_eq (fst k) name) hs
      else h # headers_set hs name v)"

definition headers_append :: "headers \<Rightarrow> string \<Rightarrow> string \<Rightarrow> headers" where
  "headers_append hs name v =
     (case find (\<lambda>h. name_eq (fst h) name) hs of
        None \<Rightarrow> hs @ [(name, v)]
      | Some h \<Rightarrow> hs @ [(fst h, v)])"

text \<open>\<open>new Headers(init)\<close> for a record \<open>init\<close>: one \<open>append\<close> per property, in order.\<close>

definition new_Headers :: "(string \<times> string) list \<Rightarrow> headers" where
  "new_Headers init = fold (\<lambda>kv hs. headers_append hs (fst kv) (snd kv)) init []"

section \<open>Requests, responses and the upstream call\<close>

record url =
  url_protocol :: string
  url_host :: string
  url_pathname :: string
  url_search :: string

text \<open>A body is \<open>null\<close> or a byte stream, given by the bytes it delivers.\<close>

record request =
  req_method :: string
  req_url :: url
  req_headers :: headers
  req_body :: "string option"

record request_init =
  init_method :: string
  init_headers :: headers
  init_redirect :: string
  init_body :: "string option"

record upstream_response =
  up_status :: nat
  up_statusText :: string
  up_headers :: headers
  up_redirected :: bool
  up_url :: string
  up_body :: "string option"

datatype body_init = Null | Text string | Stream string

record response =
  resp_status :: nat
  resp_statusText :: string
  resp_headers :: headers
  resp_body :: body_init

text \<open>
  What a rejected \<open>fetch\<close> throws: an \<open>Error\<close> object with its message, or any other
  value.
\<close>

datatype thrown = Error string | NonError

type_synonym fetch_fn = "string \<Rightarrow> request_init \<Rightarrow> thrown + upstream_response"

section \<open>corsHeaders and json\<close>

definition corsHeaders :: "(string \<times> string) list" where
  "corsHeaders =
     [(''Access-Control-Allow-Origin'', ''*''),
      (''Access-Control-Allow-Methods'', ''POST, GET, OPTIONS''),
      (''Access-Control-Allow-Headers'', join ALLOW_HEADERS '', ''),
      (''Access-Control-Expose-Headers'', join EXPOSE_HEADERS '', ''),
      (''Access-Control-Max-Age'', ''86400'')]"

text \<open>
  \<open>JSON.stringify\<close> on the objects that \<open>json\<close> is called with: object literals whose
  properties are strings, serialised in property order. A string is quoted with the
  escapes of \<open>QuoteJSONString\<close>: the two-character escapes for backspace, tab, line feed,
  form feed, carriage return, the double quote and the backslash, and \<open>\u00XX\<close> in
  lower-case hexadecimal for the other bytes below 32.
\<close>

definition hex_digit :: "nat \<Rightarrow> char" where
  "hex_digit n = (if n < 10 then char_of (48 + n) else char_of (87 + n))"

definition json_escape_char :: "char \<Rightarrow> string" where
  "json_escape_char c =
     (let n = (of_char c :: nat) in
      if n = 8 then [CHR 0x5C, CHR ''b'']
      else if n = 9 then [CHR 0x5C, CHR ''t'']
      else if n = 10 then [CHR 0x5C, CHR ''n'']
      else if n = 12 then [CHR 0x5C, CHR ''f'']
      else if n = 13 then [CHR 0x5C, CHR ''r'']
      else if n = 34 then [CHR 0x5C, CHR 0x22]
      else if n = 92 then [CHR 0x5C, CHR 0x5C]
      else if n < 32 then [CHR 0x5C, CHR ''u'', CHR ''0'', CHR ''0'',
                           hex_digit (n div 16), hex_digit (n mod 16)]
      else [c])"

definition json_quote :: "string \<Rightarrow> string" where
  "json_quote s = [CHR 0x22] @ concat (map json_escape_char s) @ [CHR 0x22]"

definition JSON_stringify :: "(string \<times> string) list \<Rightarrow> string" where
  "JSON_stringify props =
     ''{'' @ join (map (\<lambda>kv. json_quote (fst kv) @ '':'' @ json_quote (snd kv)) props) '',''
       @ ''}''"

text \<open>
  \<open>new Response(body, {status, statusText, headers})\<close>. The constructor throws a
  \<open>RangeError\<close> unless the status lies between 200 and 599; \<open>rangeError\<close> is the message
  the runtime gives that error for a status. The status texts and header values that
  reach the constructor here are constants of the proxy or come out of a \<open>Request\<close> or a
  \<open>Response\<close> of the runtime, and a null body status arrives from \<open>fetch\<close> with a null
  body, so the status is the one thing the constructor can refuse.
\<close>

definition new_Response ::
  "(nat \<Rightarrow> string) \<Rightarrow> body_init \<Rightarrow> nat \<Rightarrow> string \<Rightarrow> headers \<Rightarrow> thrown + response" where
  "new_Response rangeError body status statusText hs =
     (if 200 \<le> status \<and> status \<le> 599
      then Inr \<lparr>resp_status = status, resp_statusText = statusText, resp_headers = hs,
                resp_body = body\<rparr>
      else Inl (Error (rangeError status)))"

text \<open>
  \<open>json(data, init)\<close>: the status of \<open>init\<close> or 200; no call site passes headers in
  \<open>init\<close>, so the response carries the content type alone.
\<close>

definition json ::
  "(nat \<Rightarrow> string) \<Rightarrow> (string \<times> string) list \<Rightarrow> nat option \<Rightarrow> thrown + response" where
  "json rangeError data status =
     new_Response rangeError (Text (JSON_stringify data))
       (case status of None \<Rightarrow> 200 | Some s \<Rightarrow> s) []
       (new_Headers [(''content-type'', ''application/json; charset=utf-8'')])"

section \<open>handleProxyRequest\<close>

subsection \<open>Path translation\<close>

text \<open>\<open>pathname.replace(/^\//, '')\<close>: one leading slash is dropped, if there is one.\<close>

definition drop_leading_slash :: "string \<Rightarrow> string" where
  "drop_leading_slash p = (case p of [] \<Rightarrow> [] | c # cs \<Rightarrow> if c = CHR ''/'' then cs else p)"

text \<open>
  \<open>path.match(/([^\/]+)\/?(.*)/)\<close>. \<open>match_here\<close> matches the pattern at the start of
  its argument: group 1 is the longest run of characters other than the slash and must
  not be empty, one slash is consumed if it follows, and group 2 is the longest run of
  characters that are not line terminators. Every later part of the pattern accepts the
  empty string, so the greedy choice is the match. \<open>path_match\<close> tries the start positions
  from left to right, as an unanchored pattern does; \<open>None\<close> is the \<open>null\<close> of no match.
  The line terminators among the bytes are line feed and carriage return; the two others
  of JavaScript, U+2028 and U+2029, are not ASCII, and a pathname is.
\<close>

definition line_terminator :: "char \<Rightarrow> bool" where
  "line_terminator c = (c = CHR 0x0A \<or> c = CHR 0x0D)"

definition match_here :: "string \<Rightarrow> (string \<times> string) option" where
  "match_here s =
     (let g1 = takeWhile (\<lambda>c. c \<noteq> CHR ''/'') s;
          r = dropWhile (\<lambda>c. c \<noteq> CHR ''/'') s;
          r' = (case r of [] \<Rightarrow> [] | c # cs \<Rightarrow> if c = CHR ''/'' then cs else r)
      in if g1 = [] then None
         else Some (g1, takeWhile (\<lambda>c. \<not> line_terminator c) r'))"

fun path_match :: "string \<Rightarrow> (string \<times> string) option" where
  "path_match [] = match_here []"
| "path_match (c # cs) =
     (case match_here (c # cs) of Some m \<Rightarrow> Some m | None \<Rightarrow> path_match cs)"

subsection \<open>The headers of the upstream request\<close>

text \<open>
  The loop over \<open>ALLOW_HEADERS\<close>: a header of the inbound request is set on the new
  object when \<open>get\<close> finds it.
\<close>

definition forward_allowed :: "headers \<Rightarrow> headers" where
  "forward_allowed src =
     fold (\<lambda>h fwd. case headers_get src h of None \<Rightarrow> fwd | Some v \<Rightarrow> headers_set fwd h v)
       ALLOW_HEADERS []"

text \<open>\<open>String.prototype.replace\<close> with a one-character pattern: the first occurrence goes.\<close>

fun remove_first :: "char \<Rightarrow> string \<Rightarrow> string" where
  "remove_first x [] = []"
| "remove_first x (c # cs) = (if c = x then cs else c # remove_first x cs)"

text \<open>\<open>/^git\//i.test(ua)\<close>\<close>

definition is_git_ua :: "string \<Rightarrow> bool" where
  "is_git_ua ua = (lower (take 4 ua) = ''git/'')"

definition PROXY_UA :: string where
  "PROXY_UA = ''git/@isomorphic-git/cors-proxy (bun)''"

definition fwdHeaders :: "request \<Rightarrow> headers" where
  "fwdHeaders request =
     (let url = req_url request;
          h0 = forward_allowed (req_headers request);
          h1 = headers_set h0 ''X-Forwarded-Proto'' (remove_first CHR '':'' (url_protocol url));
          h2 = headers_set h1 ''X-Forwarded-For''
                 (case headers_get (req_headers request) ''x-forwarded-for'' of
                    None \<Rightarrow> ''0.0.0.0'' | Some v \<Rightarrow> v);
          h3 = headers_set h2 ''X-Forwarded-Host'' (url_host url)
      in case headers_get h3 ''user-agent'' of
           None \<Rightarrow> headers_set h3 ''User-Agent'' PROXY_UA
         | Some ua \<Rightarrow>
             if ua = [] \<or> \<not> is_git_ua ua then headers_set h3 ''User-Agent'' PROXY_UA
             else h3)"

definition request_init_of :: "request \<Rightarrow> request_init" where
  "request_init_of request =
     \<lparr>init_method = req_method request,
      init_headers = fwdHeaders request,
      init_redirect = ''follow'',
      init_body = (if req_method request \<noteq> ''GET'' \<and> req_method request \<noteq> ''HEAD''
                   then req_body request else None)\<rparr>"

subsection \<open>The headers of the response to the client\<close>

definition outHeaders :: "upstream_response \<Rightarrow> headers" where
  "outHeaders upstream =
     (let h0 = new_Headers corsHeaders;
          h1 = fold (\<lambda>h out.
                  if h = ''content-length'' then out
                  else case headers_get (up_headers upstream) h of
                         None \<Rightarrow> out
                       | Some v \<Rightarrow> headers_set out h v)
                EXPOSE_HEADERS h0
      in if up_redirected upstream then headers_set h1 ''x-redirected-url'' (up_url upstream)
         else h1)"

subsection \<open>The handler\<close>

text \<open>
  The handler returns its response together with the upstream calls it made, each with
  the URL and the options passed to \<open>fetch\<close>. \<open>fetch\<close> is the environment: it answers a
  call with an upstream response or with what it throws. The parsed URL of the request
  is an input. The handler catches what \<open>fetch\<close> throws; the \<open>new Response\<close> that relays
  the upstream answer stands outside the \<open>try\<close>, so what it throws leaves the handler
  (\<open>Inl\<close>) after the upstream call was made.
\<close>

definition targetURL :: "string \<Rightarrow> string \<Rightarrow> string \<Rightarrow> string" where
  "targetURL domain remainingPath search =
     ''https://'' @ domain @ ''/'' @ remainingPath @ search"

definition handleProxyRequest ::
  "(nat \<Rightarrow> string) \<Rightarrow> fetch_fn \<Rightarrow> request \<Rightarrow>
     (thrown + response) \<times> (string \<times> request_init) list" where
  "handleProxyRequest rangeError fetch request =
     (let url = req_url request;
          path = drop_leading_slash (url_pathname url)
      in if req_method request = ''OPTIONS''
         then (new_Response rangeError Null 200 [] (new_Headers corsHeaders), [])
         else if path = []
         then (json rangeError [(''error'', ''Invalid proxy URL format'')] (Some 400), [])
         else case path_match path of
           None \<Rightarrow> (json rangeError [(''error'', ''Invalid path format'')] (Some 400), [])
         | Some (domain, remainingPath) \<Rightarrow>
             (let target = targetURL domain remainingPath (url_search url);
                  init = request_init_of request
              in case fetch target init of
                   Inl err \<Rightarrow>
                     (json rangeError
                        [(''error'', ''Proxy error''),
                         (''message'', (case err of Error m \<Rightarrow> m
                                                  | NonError \<Rightarrow> ''Unknown error'')),
                         (''url'', target)] (Some 500),
                      [(target, init)])
                 | Inr upstream \<Rightarrow>
                     (new_Response rangeError
                        (case up_body upstream of None \<Rightarrow> Null | Some b \<Rightarrow> Stream b)
                        (up_status upstream) (up_statusText upstream) (outHeaders upstream),
                      [(target, init)])))"

subsection \<open>The server\<close>

text \<open>
  The \<open>fetch\<close> callback given to \<open>Bun.serve\<close>: what the handler throws is caught and
  answered with the 500 envelope that has no \<open>url\<close>.
\<close>

definition serve_fetch ::
  "(nat \<Rightarrow> string) \<Rightarrow> fetch_fn \<Rightarrow> request \<Rightarrow>
     (thrown + response) \<times> (string \<times> request_init) list" where
  "serve_fetch rangeError fetch request =
     (case handleProxyRequest rangeError fetch request of
        (Inr response, calls) \<Rightarrow> (Inr response, calls)
      | (Inl err, calls) \<Rightarrow>
          (json rangeError
             [(''error'', ''Proxy error''),
              (''message'', (case err of Error m \<Rightarrow> m | NonError \<Rightarrow> ''Unknown error''))]
             (Some 500),
           calls))"

section \<open>Auxiliary definitions and example inputs\<close>

text \<open>The values stored under a name, in order: what \<open>get\<close> joins.\<close>

definition header_values :: "headers \<Rightarrow> string \<Rightarrow> string list" where
  "header_values hs name = map snd (filter (\<lambda>h. name_eq (fst h) name) hs)"

text \<open>One round of the two copying loops: a header that \<open>get\<close> finds is set.\<close>

definition copy_header :: "headers \<Rightarrow> string \<Rightarrow> headers \<Rightarrow> headers" where
  "copy_header src h dst =
     (case headers_get src h of None \<Rightarrow> dst | Some v \<Rightarrow> headers_set dst h v)"

text \<open>
  The first maximal run of characters other than the slash in a path, and what follows
  it: one slash is skipped, and the rest is kept up to the first line terminator.
\<close>

definition first_segment :: "string \<Rightarrow> string" where
  "first_segment path =
     takeWhile (\<lambda>c. c \<noteq> CHR ''/'') (dropWhile (\<lambda>c. c = CHR ''/'') path)"

definition after_first_segment :: "string \<Rightarrow> string" where
  "after_first_segment path =
     takeWhile (\<lambda>c. \<not> line_terminator c)
       (drop 1 (dropWhile (\<lambda>c. c \<noteq> CHR ''/'') (dropWhile (\<lambda>c. c = CHR ''/'') path)))"

text \<open>
  A user agent that starts with \<open>git/\<close>, each letter in either case.
\<close>

definition starts_with_git :: "string \<Rightarrow> bool" where
  "starts_with_git ua =
     (case ua of
        a # b # c # d # rest \<Rightarrow>
          (a = CHR ''g'' \<or> a = CHR ''G'') \<and> (b = CHR ''i'' \<or> b = CHR ''I'')
          \<and> (c = CHR ''t'' \<or> c = CHR ''T'') \<and> d = CHR ''/''
      | _ \<Rightarrow> False)"

text \<open>
  \<open>GET http://localhost:3000/example.com/foo?x=1\<close> with a range, a cookie and a
  forwarded-for header, and the same URL under \<open>OPTIONS\<close> and with the paths \<open>/\<close>,
  \<open>//\<close>, \<open>//example.com/foo\<close> and \<open>/example.com\<close>, and with a user agent
  of curl, of git in two spellings, and of something that only begins like git.
\<close>

definition ex_url :: url where
  "ex_url = \<lparr>url_protocol = ''http:'', url_host = ''localhost:3000'',
             url_pathname = ''/example.com/foo'', url_search = ''?x=1''\<rparr>"

definition ex_request :: request where
  "ex_request =
     \<lparr>req_method = ''GET'', req_url = ex_url,
      req_headers = [(''Range'', ''bytes=0-10''), (''Cookie'', ''a=b''),
                     (''X-Forwarded-For'', ''10.1.2.3'')],
      req_body = None\<rparr>"

definition ex_options :: request where
  "ex_options = ex_request\<lparr>req_method := ''OPTIONS'',
                             req_url := ex_url\<lparr>url_pathname := ''/''\<rparr>\<rparr>"

definition ex_empty_path :: request where
  "ex_empty_path = ex_request\<lparr>req_url := ex_url\<lparr>url_pathname := ''/''\<rparr>\<rparr>"

definition ex_slashes :: request where
  "ex_slashes = ex_request\<lparr>req_url := ex_url\<lparr>url_pathname := ''//''\<rparr>\<rparr>"

definition ex_curl :: request where
  "ex_curl = ex_request\<lparr>req_headers := [(''User-Agent'', ''curl/8.0'')]\<rparr>"

definition ex_git :: request where
  "ex_git = ex_request\<lparr>req_headers := [(''User-Agent'', ''git/2.40.0'')]\<rparr>"

definition ex_git_upper :: request where
  "ex_git_upper = ex_request\<lparr>req_headers := [(''user-agent'', ''GiT/2.40.0'')]\<rparr>"

definition ex_gitlab :: request where
  "ex_gitlab = ex_request\<lparr>req_headers := [(''User-Agent'', ''gitlab/1.0'')]\<rparr>"

definition ex_double_slash :: request where
  "ex_double_slash = ex_request\<lparr>req_url := ex_url\<lparr>url_pathname := ''//example.com/foo''\<rparr>\<rparr>"

definition ex_bare :: request where
  "ex_bare = ex_request\<lparr>req_url := ex_url\<lparr>url_pathname := ''/example.com''\<rparr>\<rparr>"

text \<open>
  An upstream answer that was not redirected and carries a length, a cookie, an entity
  tag, a redirect annotation and a CORS header of its own; and a \<open>fetch\<close> that always
  gives it, one that gives it as redirected, one that always fails, and one whose answer
  has an entity tag as its only header.
\<close>

definition ex_upstream :: upstream_response where
  "ex_upstream =
     \<lparr>up_status = 200, up_statusText = ''OK'',
      up_headers = [(''Content-Length'', ''12''), (''Set-Cookie'', ''q=1''),
                    (''ETag'', ''abc''), (''x-redirected-url'', ''https://other.example/''),
                    (''access-control-allow-origin'', ''https://app.example'')],
      up_redirected = False, up_url = ''https://example.com/foo?x=1'',
      up_body = Some ''hello''\<rparr>"

definition ex_fetch_ok :: fetch_fn where
  "ex_fetch_ok u i = Inr ex_upstream"

definition ex_fetch_redirected :: fetch_fn where
  "ex_fetch_redirected u i =
     Inr (ex_upstream\<lparr>up_redirected := True, up_url := ''https://www.example.com/foo?x=1''\<rparr>)"

definition ex_fetch_fail :: fetch_fn where
  "ex_fetch_fail u i = Inl (Error ''Unable to connect'')"

definition ex_fetch_plain :: fetch_fn where
  "ex_fetch_plain u i = Inr (ex_upstream\<lparr>up_headers := [(''ETag'', ''abc'')]\<rparr>)"

text \<open>A runtime's wording of the \<open>RangeError\<close>, and a redirected answer with status 999.\<close>

definition ex_rangeError :: "nat \<Rightarrow> string" where
  "ex_rangeError status = ''The status provided is outside the range [200, 599]''"

definition ex_fetch_999 :: fetch_fn where
  "ex_fetch_999 u i =
     Inr (ex_upstream\<lparr>up_status := 999, up_redirected := True,
                      up_url := ''https://www.example.com/foo?x=1''\<rparr>)"

section \<open>Facts about the Headers class\<close>

lemma headers_get_values:
  "headers_get hs name =
     (case header_values hs name of [] \<Rightarrow> None | v # vs \<Rightarrow> Some (join (v # vs) '', ''))"
  by (simp add: headers_get_def header_values_def)

lemma headers_has_values: "headers_has hs name = (header_values hs name \<noteq> [])"
  by (induction hs) (auto simp: headers_has_def header_values_def)

lemma headers_has_get: "headers_has hs name = (headers_get hs name \<noteq> None)"
  by (simp add: headers_has_values headers_get_values split: list.splits)

lemma header_values_cong: "name_eq a b \<Longrightarrow> header_values hs a = header_values hs b"
  by (simp add: header_values_def name_eq_def)

lemma header_values_filter_other:
  "\<not> name_eq k n \<Longrightarrow>
     header_values (filter (\<lambda>h. \<not> name_eq (fst h) k) hs) n = header_values hs n"
  by (induction hs) (auto simp: header_values_def name_eq_def)

lemma header_values_filter_same:
  "name_eq k n \<Longrightarrow> header_values (filter (\<lambda>h. \<not> name_eq (fst h) k) hs) n = []"
  by (induction hs) (auto simp: header_values_def name_eq_def)

text \<open>After \<open>set\<close>, the name holds the new value alone and no other name has changed.\<close>

lemma header_values_set:
  "header_values (headers_set hs k v) n = (if name_eq k n then [v] else header_values hs n)"
proof (induction hs)
  case Nil
  show ?case by (simp add: header_values_def)
next
  case (Cons h hs)
  show ?case
  proof (cases "name_eq (fst h) k")
    case True
    then show ?thesis
      using header_values_filter_other [of k n hs] header_values_filter_same [of k n hs]
      by (auto simp: header_values_def name_eq_def)
  next
    case False
    then show ?thesis using Cons.IH
      by (auto simp: header_values_def name_eq_def)
  qed
qed

lemma headers_get_set:
  "headers_get (headers_set hs k v) n = (if name_eq k n then Some v else headers_get hs n)"
  by (simp add: headers_get_values header_values_set)

lemma headers_has_set:
  "headers_has (headers_set hs k v) n = (name_eq k n \<or> headers_has hs n)"
  by (simp add: headers_has_values header_values_set)

lemmas name_eval = name_eq_def lower_def lower_char_def char_of_def bit_Suc_0_iff

lemma new_Headers_cors: "new_Headers corsHeaders = corsHeaders"
  by (simp add: new_Headers_def corsHeaders_def headers_append_def name_eval)

lemma new_Headers_content_type:
  "new_Headers [(''content-type'', v)] = [(''content-type'', v)]"
  by (simp add: new_Headers_def headers_append_def)

lemma json_accepted:
  assumes "200 \<le> status" and "status \<le> 599"
  shows "json rangeError data (Some status) =
           Inr \<lparr>resp_status = status, resp_statusText = [],
                resp_headers = [(''content-type'', ''application/json; charset=utf-8'')],
                resp_body = Text (JSON_stringify data)\<rparr>"
  using assms by (simp add: json_def new_Response_def new_Headers_content_type)

text \<open>The copying loops, seen through the values stored under a name.\<close>

lemma headers_get_cong: "name_eq a b \<Longrightarrow> headers_get hs a = headers_get hs b"
  by (simp add: headers_get_values header_values_cong)

lemma header_values_copy:
  "header_values (copy_header src h dst) n =
     (case headers_get src n of
        Some v \<Rightarrow> if name_eq h n then [v] else header_values dst n
      | None \<Rightarrow> header_values dst n)"
proof (cases "name_eq h n")
  case True
  then have "headers_get src h = headers_get src n" by (rule headers_get_cong)
  with True show ?thesis
    by (simp add: copy_header_def header_values_set split: option.splits)
next
  case False
  then show ?thesis
    by (simp add: copy_header_def header_values_set split: option.splits)
qed

lemma header_values_fold_copy:
  "header_values (fold (copy_header src) names dst) n =
     (case headers_get src n of
        Some v \<Rightarrow> if \<exists>h\<in>set names. name_eq h n then [v] else header_values dst n
      | None \<Rightarrow> header_values dst n)"
proof (induction names arbitrary: dst)
  case Nil
  show ?case by (simp split: option.splits)
next
  case (Cons h hs)
  show ?case
    by (simp add: Cons.IH header_values_copy split: option.splits)
qed

lemma forward_allowed_fold: "forward_allowed src = fold (copy_header src) ALLOW_HEADERS []"
  unfolding forward_allowed_def copy_header_def ..

lemma expose_fold:
  "fold (\<lambda>h out. if h = ''content-length'' then out
                  else case headers_get src h of None \<Rightarrow> out | Some v \<Rightarrow> headers_set out h v)
     names dst
   = fold (copy_header src) (filter (\<lambda>h. h \<noteq> ''content-length'') names) dst"
  by (induction names arbitrary: dst) (simp_all add: copy_header_def)


lemma header_values_names:
  "header_values hs n \<noteq> [] \<Longrightarrow> lower n \<in> set (map (\<lambda>h. lower (fst h)) hs)"
  by (induction hs) (auto simp: header_values_def name_eq_def split: if_splits)

lemma name_in_list: "(\<exists>h\<in>set names. name_eq h n) = (lower n \<in> set (map lower names))"
  by (induction names) (auto simp: name_eq_def)

section \<open>The preflight and the empty path\<close>

text \<open>
  C4. A request with method \<open>OPTIONS\<close>, whatever its path, is answered with status 200,
  exactly the five CORS headers and a null body, and no upstream call is made.
\<close>

theorem options_preflight:
  assumes "req_method request = ''OPTIONS''"
  shows "handleProxyRequest rangeError fetch request =
           (Inr \<lparr>resp_status = 200, resp_statusText = [], resp_headers = corsHeaders,
                 resp_body = Null\<rparr>, [])
         \<and> serve_fetch rangeError fetch request =
           (Inr \<lparr>resp_status = 200, resp_statusText = [], resp_headers = corsHeaders,
                 resp_body = Null\<rparr>, [])
         \<and> map fst corsHeaders =
             [''Access-Control-Allow-Origin'', ''Access-Control-Allow-Methods'',
              ''Access-Control-Allow-Headers'', ''Access-Control-Expose-Headers'',
              ''Access-Control-Max-Age'']"
proof -
  have h: "handleProxyRequest rangeError fetch request =
          (Inr \<lparr>resp_status = 200, resp_statusText = [], resp_headers = corsHeaders,
                resp_body = Null\<rparr>, [])"
    using assms by (simp add: handleProxyRequest_def new_Response_def new_Headers_cors)
  then have "serve_fetch rangeError fetch request =
          (Inr \<lparr>resp_status = 200, resp_statusText = [], resp_headers = corsHeaders,
                resp_body = Null\<rparr>, [])"
    by (simp add: serve_fetch_def)
  moreover have "map fst corsHeaders =
             [''Access-Control-Allow-Origin'', ''Access-Control-Allow-Methods'',
              ''Access-Control-Allow-Headers'', ''Access-Control-Expose-Headers'',
              ''Access-Control-Max-Age'']"
    by (simp add: corsHeaders_def)
  ultimately show ?thesis using h by simp
qed

theorem options_preflight_witness:
  "req_method ex_options = ''OPTIONS''
   \<and> url_pathname (req_url ex_options) = ''/''
   \<and> handleProxyRequest ex_rangeError ex_fetch_fail ex_options =
       (Inr \<lparr>resp_status = 200, resp_statusText = [], resp_headers = corsHeaders,
             resp_body = Null\<rparr>, [])
   \<and> serve_fetch ex_rangeError ex_fetch_fail ex_options =
       (Inr \<lparr>resp_status = 200, resp_statusText = [], resp_headers = corsHeaders,
             resp_body = Null\<rparr>, [])"
  using options_preflight [of ex_options ex_rangeError ex_fetch_fail]
  by (simp add: ex_options_def ex_request_def)

text \<open>
  C8. A request whose method is not \<open>OPTIONS\<close> and whose path is empty once the leading
  slash is dropped is answered with status 400 and the JSON text
  \<open>{"error":"Invalid proxy URL format"}\<close>, and no upstream call is made.
\<close>

theorem empty_path_rejected:
  assumes "req_method request \<noteq> ''OPTIONS''"
    and "drop_leading_slash (url_pathname (req_url request)) = []"
  shows \<open>handleProxyRequest rangeError fetch request =
           (Inr \<lparr>resp_status = 400, resp_statusText = [],
                 resp_headers = [(''content-type'', ''application/json; charset=utf-8'')],
                 resp_body = Text ''{"error":"Invalid proxy URL format"}''\<rparr>, [])
         \<and> serve_fetch rangeError fetch request =
           (Inr \<lparr>resp_status = 400, resp_statusText = [],
                 resp_headers = [(''content-type'', ''application/json; charset=utf-8'')],
                 resp_body = Text ''{"error":"Invalid proxy URL format"}''\<rparr>, [])\<close>
proof -
  have \<open>JSON_stringify [(''error'', ''Invalid proxy URL format'')] =
          ''{"error":"Invalid proxy URL format"}''\<close>
    by (simp add: JSON_stringify_def json_quote_def json_escape_char_def)
  then have \<open>handleProxyRequest rangeError fetch request =
           (Inr \<lparr>resp_status = 400, resp_statusText = [],
                 resp_headers = [(''content-type'', ''application/json; charset=utf-8'')],
                 resp_body = Text ''{"error":"Invalid proxy URL format"}''\<rparr>, [])\<close>
    using assms by (simp add: handleProxyRequest_def json_accepted)
  then show ?thesis by (simp add: serve_fetch_def)
qed

theorem empty_path_rejected_witness:
  \<open>req_method ex_empty_path \<noteq> ''OPTIONS''
   \<and> drop_leading_slash (url_pathname (req_url ex_empty_path)) = []
   \<and> handleProxyRequest ex_rangeError ex_fetch_ok ex_empty_path =
       (Inr \<lparr>resp_status = 400, resp_statusText = [],
             resp_headers = [(''content-type'', ''application/json; charset=utf-8'')],
             resp_body = Text ''{"error":"Invalid proxy URL format"}''\<rparr>, [])
   \<and> serve_fetch ex_rangeError ex_fetch_ok ex_empty_path =
       (Inr \<lparr>resp_status = 400, resp_statusText = [],
             resp_headers = [(''content-type'', ''application/json; charset=utf-8'')],
             resp_body = Text ''{"error":"Invalid proxy URL format"}''\<rparr>, [])\<close>
proof -
  have m: "req_method ex_empty_path \<noteq> ''OPTIONS''"
    by (simp add: ex_empty_path_def ex_request_def)
  have p: "drop_leading_slash (url_pathname (req_url ex_empty_path)) = []"
    by (simp add: ex_empty_path_def ex_request_def drop_leading_slash_def)
  show ?thesis
    using m p empty_path_rejected [OF m p, of ex_rangeError ex_fetch_ok] by simp
qed

section \<open>Facts about the path pattern\<close>

lemma match_here_None: "match_here s = None \<longleftrightarrow> s = [] \<or> hd s = CHR ''/''"
  by (cases s) (auto simp: match_here_def Let_def)

lemma slash_tail:
  "(case dropWhile (\<lambda>c. c \<noteq> CHR ''/'') s of
      [] \<Rightarrow> []
    | c # cs \<Rightarrow> if c = CHR ''/'' then cs else dropWhile (\<lambda>c. c \<noteq> CHR ''/'') s)
   = drop 1 (dropWhile (\<lambda>c. c \<noteq> CHR ''/'') s)"
proof (cases "dropWhile (\<lambda>c. c \<noteq> CHR ''/'') s")
  case Nil
  show ?thesis unfolding Nil by simp
next
  case (Cons c cs)
  then have "\<not> (hd (dropWhile (\<lambda>c. c \<noteq> CHR ''/'') s) \<noteq> CHR ''/'')"
    using hd_dropWhile [of "\<lambda>c. c \<noteq> CHR ''/''" s] by simp
  with Cons show ?thesis by simp
qed

lemma match_here_Some:
  "s \<noteq> [] \<Longrightarrow> hd s \<noteq> CHR ''/'' \<Longrightarrow>
   match_here s =
     Some (takeWhile (\<lambda>c. c \<noteq> CHR ''/'') s,
           takeWhile (\<lambda>c. \<not> line_terminator c)
             (drop 1 (dropWhile (\<lambda>c. c \<noteq> CHR ''/'') s)))"
  unfolding match_here_def Let_def slash_tail
  by (cases s) auto

lemma path_match_skip:
  "path_match p =
     (let s = dropWhile (\<lambda>c. c = CHR ''/'') p in if s = [] then None else match_here s)"
proof (induction p)
  case Nil
  show ?case by (simp add: match_here_None)
next
  case (Cons c cs)
  show ?case
  proof (cases "c = CHR ''/''")
    case True
    then have "match_here (c # cs) = None" by (simp add: match_here_None)
    with True Cons.IH show ?thesis by simp
  next
    case False
    then have "match_here (c # cs) \<noteq> None" by (simp add: match_here_None)
    with False show ?thesis by auto
  qed
qed

lemma path_match_None: "path_match p = None \<longleftrightarrow> (\<forall>c\<in>set p. c = CHR ''/'')"
proof (cases "dropWhile (\<lambda>c. c = CHR ''/'') p = []")
  case True
  then have "path_match p = None" by (simp only: path_match_skip Let_def) simp
  moreover from True have "\<forall>c\<in>set p. c = CHR ''/''" by simp
  ultimately show ?thesis by simp
next
  case False
  then have "match_here (dropWhile (\<lambda>c. c = CHR ''/'') p) \<noteq> None"
    using hd_dropWhile [of "\<lambda>c. c = CHR ''/''" p] by (simp only: match_here_None) simp
  with False have "path_match p \<noteq> None" by (simp only: path_match_skip Let_def) simp
  moreover from False have "\<not> (\<forall>c\<in>set p. c = CHR ''/'')" by simp
  ultimately show ?thesis by blast
qed

lemma path_match_Some:
  assumes "\<not> (\<forall>c\<in>set p. c = CHR ''/'')"
  shows "path_match p = Some (first_segment p, after_first_segment p)"
proof -
  let ?s = "dropWhile (\<lambda>c. c = CHR ''/'') p"
  from assms have ne: "?s \<noteq> []" by auto
  then have "hd ?s \<noteq> CHR ''/''" using hd_dropWhile [of "\<lambda>c. c = CHR ''/''" p] by simp
  with ne show ?thesis
    by (simp add: path_match_skip Let_def match_here_Some first_segment_def after_first_segment_def)
qed

text \<open>\<open>first_segment\<close> is what its name says.\<close>

lemma first_segment_maximal_run:
  assumes "\<exists>c\<in>set path. c \<noteq> CHR ''/''"
  shows "\<exists>k rest. path = replicate k CHR ''/'' @ first_segment path @ rest
           \<and> first_segment path \<noteq> [] \<and> CHR ''/'' \<notin> set (first_segment path)
           \<and> (rest = [] \<or> hd rest = CHR ''/'')"
proof -
  let ?s = "dropWhile (\<lambda>c. c = CHR ''/'') path"
  let ?t = "takeWhile (\<lambda>c. c = CHR ''/'') path"
  let ?rest = "dropWhile (\<lambda>c. c \<noteq> CHR ''/'') ?s"
  have "\<forall>c\<in>set ?t. c = CHR ''/''" by (auto dest: set_takeWhileD)
  then have t: "replicate (length ?t) CHR ''/'' = ?t" by (rule replicate_length_same)
  have "path = ?t @ ?s" by simp
  also have "?s = first_segment path @ ?rest" by (simp add: first_segment_def)
  finally have p: "path = replicate (length ?t) CHR ''/'' @ first_segment path @ ?rest"
    by (simp only: t)
  from assms have ne: "?s \<noteq> []" by auto
  then have "hd ?s \<noteq> CHR ''/''" using hd_dropWhile [of "\<lambda>c. c = CHR ''/''" path] by simp
  with ne have f: "first_segment path \<noteq> []"
    by (simp add: first_segment_def takeWhile_eq_Nil_iff)
  have n: "CHR ''/'' \<notin> set (first_segment path)"
    by (auto simp: first_segment_def dest: set_takeWhileD)
  have r: "?rest = [] \<or> hd ?rest = CHR ''/''"
    using hd_dropWhile [of "\<lambda>c. c \<noteq> CHR ''/''" ?s] by blast
  from p f n r show ?thesis by blast
qed

lemma first_segment_form:
  assumes "domain \<noteq> []" "CHR ''/'' \<notin> set domain"
  shows "first_segment (domain @ CHR ''/'' # remainder) = domain"
    and "first_segment domain = domain"
proof -
  have nd: "\<forall>x\<in>set domain. x \<noteq> CHR ''/''" using assms(2) by auto
  have h: "hd domain \<noteq> CHR ''/''" using assms by (cases domain) auto
  have d: "dropWhile (\<lambda>c. c = CHR ''/'') (domain @ r) = domain @ r" for r
    using assms(1) h by (cases domain) auto
  have t: "takeWhile (\<lambda>c. c \<noteq> CHR ''/'') (domain @ CHR ''/'' # remainder) = domain"
    using nd by (simp add: takeWhile_tail)
  show "first_segment (domain @ CHR ''/'' # remainder) = domain"
    by (simp only: first_segment_def d t)
  have t': "takeWhile (\<lambda>c. c \<noteq> CHR ''/'') domain = domain"
    using nd by simp
  show "first_segment domain = domain"
    using d [of "[]"] by (simp add: first_segment_def t')
qed

lemma after_first_segment_form:
  assumes "domain \<noteq> []" "CHR ''/'' \<notin> set domain"
  shows "after_first_segment (domain @ CHR ''/'' # remainder) =
           takeWhile (\<lambda>c. \<not> line_terminator c) remainder"
    and "after_first_segment domain = []"
proof -
  have nd: "\<forall>x\<in>set domain. x \<noteq> CHR ''/''" using assms(2) by auto
  have h: "hd domain \<noteq> CHR ''/''" using assms by (cases domain) auto
  have d: "dropWhile (\<lambda>c. c = CHR ''/'') (domain @ r) = domain @ r" for r
    using assms(1) h by (cases domain) auto
  have t: "dropWhile (\<lambda>c. c \<noteq> CHR ''/'') (domain @ CHR ''/'' # remainder) =
             CHR ''/'' # remainder"
    using nd by (simp add: dropWhile_append3)
  show "after_first_segment (domain @ CHR ''/'' # remainder) =
          takeWhile (\<lambda>c. \<not> line_terminator c) remainder"
    by (simp only: after_first_segment_def d t) simp
  have t': "dropWhile (\<lambda>c. c \<noteq> CHR ''/'') domain = []" using nd by simp
  have "after_first_segment domain =
          takeWhile (\<lambda>c. \<not> line_terminator c) (drop 1 [])"
    using d [of "[]"] by (simp only: after_first_segment_def t' append_Nil2)
  then show "after_first_segment domain = []" by simp
qed



lemma not_all_slashes:
  assumes "domain \<noteq> []" and "CHR ''/'' \<notin> set domain"
  shows "\<not> (\<forall>c\<in>set (domain @ r). c = CHR ''/'')"
proof -
  from assms(1) obtain x xs where "domain = x # xs" by (cases domain) auto
  with assms(2) have "x \<in> set (domain @ r)" "x \<noteq> CHR ''/''" by auto
  then show ?thesis by blast
qed

section \<open>The branches of the handler\<close>

lemma json_envelope_text:
  \<open>JSON_stringify [(''error'', ''Proxy error''), (''message'', m), (''url'', u)] =
     ''{"error":"Proxy error","message":'' @ json_quote m @ '',"url":'' @ json_quote u @ ''}''\<close>
  by (simp add: JSON_stringify_def) (simp add: json_quote_def json_escape_char_def)

lemma json_invalid_path_text:
  \<open>JSON_stringify [(''error'', ''Invalid path format'')] = ''{"error":"Invalid path format"}''\<close>
  by (simp add: JSON_stringify_def json_quote_def json_escape_char_def)

lemma handler_invalid_path:
  assumes "req_method request \<noteq> ''OPTIONS''"
    and "drop_leading_slash (url_pathname (req_url request)) \<noteq> []"
    and "\<forall>c\<in>set (drop_leading_slash (url_pathname (req_url request))). c = CHR ''/''"
  shows "handleProxyRequest rangeError fetch request =
           (json rangeError [(''error'', ''Invalid path format'')] (Some 400), [])"
proof -
  have "path_match (drop_leading_slash (url_pathname (req_url request))) = None"
    using assms(3) by (simp only: path_match_None)
  then show ?thesis using assms(1,2) by (simp add: handleProxyRequest_def)
qed

lemma handler_translated:
  assumes "req_method request \<noteq> ''OPTIONS''"
    and "path = drop_leading_slash (url_pathname (req_url request))"
    and "\<not> (\<forall>c\<in>set path. c = CHR ''/'')"
  shows "snd (handleProxyRequest rangeError fetch request) =
           [(targetURL (first_segment path) (after_first_segment path)
               (url_search (req_url request)), request_init_of request)]"
proof -
  have ne: "path \<noteq> []" using assms(3) by auto
  have m: "path_match path = Some (first_segment path, after_first_segment path)"
    using assms(3) by (rule path_match_Some)
  show ?thesis
    using assms(1) ne m unfolding assms(2)
    by (simp add: handleProxyRequest_def Let_def split: sum.splits)
qed

text \<open>
  A request that reached \<open>fetch\<close> did so once, with the options built from it, and the
  outcome of the handler is decided by the answer.
\<close>

lemma handler_forwarded:
  assumes "(u, i) \<in> set (snd (handleProxyRequest rangeError fetch request))"
  shows "req_method request \<noteq> ''OPTIONS''"
    and "i = request_init_of request"
    and "snd (handleProxyRequest rangeError fetch request) = [(u, i)]"
    and "fst (handleProxyRequest rangeError fetch request) =
           (case fetch u i of
              Inl err \<Rightarrow>
                json rangeError
                  [(''error'', ''Proxy error''),
                   (''message'', (case err of Error m \<Rightarrow> m | NonError \<Rightarrow> ''Unknown error'')),
                   (''url'', u)] (Some 500)
            | Inr upstream \<Rightarrow>
                new_Response rangeError
                  (case up_body upstream of None \<Rightarrow> Null | Some b \<Rightarrow> Stream b)
                  (up_status upstream) (up_statusText upstream) (outHeaders upstream))"
proof -
  let ?path = "drop_leading_slash (url_pathname (req_url request))"
  show m: "req_method request \<noteq> ''OPTIONS''"
  proof
    assume "req_method request = ''OPTIONS''"
    then have "snd (handleProxyRequest rangeError fetch request) = []"
      by (simp add: handleProxyRequest_def)
    with assms show False by simp
  qed
  have ne: "?path \<noteq> []"
  proof
    assume "?path = []"
    then have "snd (handleProxyRequest rangeError fetch request) = []"
      using m by (simp add: handleProxyRequest_def)
    with assms show False by simp
  qed
  obtain d r where pm: "path_match ?path = Some (d, r)"
  proof (cases "path_match ?path")
    case None
    then have "snd (handleProxyRequest rangeError fetch request) = []"
      using m ne by (simp add: handleProxyRequest_def)
    with assms show ?thesis by simp
  next
    case (Some a)
    with that show ?thesis by (cases a) simp
  qed
  define t where "t = targetURL d r (url_search (req_url request))"
  have s: "snd (handleProxyRequest rangeError fetch request) = [(t, request_init_of request)]"
    using m ne pm by (cases "fetch t (request_init_of request)")
      (simp_all add: handleProxyRequest_def Let_def t_def)
  with assms have ui: "u = t" "i = request_init_of request" by simp_all
  show "i = request_init_of request" by (rule ui(2))
  show "snd (handleProxyRequest rangeError fetch request) = [(u, i)]"
    using s ui by simp
  show "fst (handleProxyRequest rangeError fetch request) =
           (case fetch u i of
              Inl err \<Rightarrow>
                json rangeError
                  [(''error'', ''Proxy error''),
                   (''message'', (case err of Error m \<Rightarrow> m | NonError \<Rightarrow> ''Unknown error'')),
                   (''url'', u)] (Some 500)
            | Inr upstream \<Rightarrow>
                new_Response rangeError
                  (case up_body upstream of None \<Rightarrow> Null | Some b \<Rightarrow> Stream b)
                  (up_status upstream) (up_statusText upstream) (outHeaders upstream))"
    unfolding ui using m ne pm
    by (cases "fetch t (request_init_of request)")
      (simp_all add: handleProxyRequest_def Let_def t_def)
qed

text \<open>The server makes the calls of the handler, and relays what the handler returns.\<close>

lemma serve_fetch_calls:
  "snd (serve_fetch rangeError fetch request) = snd (handleProxyRequest rangeError fetch request)"
  by (cases "handleProxyRequest rangeError fetch request")
     (simp add: serve_fetch_def split: sum.splits)

lemma serve_fetch_returned:
  "fst (handleProxyRequest rangeError fetch request) = Inr response \<Longrightarrow>
     fst (serve_fetch rangeError fetch request) = Inr response"
  by (cases "handleProxyRequest rangeError fetch request") (simp add: serve_fetch_def)

lemma serve_fetch_caught:
  "fst (handleProxyRequest rangeError fetch request) = Inl err \<Longrightarrow>
     fst (serve_fetch rangeError fetch request) =
       Inr \<lparr>resp_status = 500, resp_statusText = [],
            resp_headers = [(''content-type'', ''application/json; charset=utf-8'')],
            resp_body = Text (JSON_stringify
              [(''error'', ''Proxy error''),
               (''message'', (case err of Error m \<Rightarrow> m | NonError \<Rightarrow> ''Unknown error''))])\<rparr>"
  by (cases "handleProxyRequest rangeError fetch request")
     (simp add: serve_fetch_def json_accepted)

text \<open>Every request is answered.\<close>

lemma serve_fetch_answers: "\<exists>response. fst (serve_fetch rangeError fetch request) = Inr response"
proof (cases "fst (handleProxyRequest rangeError fetch request)")
  case (Inl err)
  then show ?thesis by (simp add: serve_fetch_caught)
next
  case (Inr response)
  then show ?thesis by (simp add: serve_fetch_returned)
qed

section \<open>Translation of the path\<close>

text \<open>
  C2. For a request whose method is not \<open>OPTIONS\<close> and whose path, the leading slash
  dropped, is \<open>domain/remainder\<close> with a non-empty domain free of slashes, the URL passed
  to \<open>fetch\<close> is \<open>https://domain/remainder\<close> followed by the query string as it is; for
  a bare domain it is \<open>https://domain/\<close> followed by the query string. The pathname of a
  parsed URL holds no raw line break (the URL parser removes tabs and newlines from its
  input and percent-encodes what is not ASCII), which is the condition on the remainder:
  the dot of the pattern stops at a line terminator.
\<close>

theorem upstream_url_construction:
  assumes "req_method request \<noteq> ''OPTIONS''"
    and "domain \<noteq> []" and "CHR ''/'' \<notin> set domain"
    and "\<forall>c\<in>set remainder. \<not> line_terminator c"
  shows "(drop_leading_slash (url_pathname (req_url request)) = domain @ ''/'' @ remainder \<longrightarrow>
            snd (handleProxyRequest rangeError fetch request) =
              [(''https://'' @ domain @ ''/'' @ remainder @ url_search (req_url request),
                request_init_of request)])
       \<and> (drop_leading_slash (url_pathname (req_url request)) = domain \<longrightarrow>
            snd (handleProxyRequest rangeError fetch request) =
              [(''https://'' @ domain @ ''/'' @ url_search (req_url request),
                request_init_of request)])"
proof (intro conjI impI)
  assume p: "drop_leading_slash (url_pathname (req_url request)) = domain @ ''/'' @ remainder"
  have e: "domain @ ''/'' @ remainder = domain @ CHR ''/'' # remainder" by simp
  have f: "first_segment (domain @ ''/'' @ remainder) = domain"
    unfolding e by (rule first_segment_form(1) [OF assms(2,3)])
  have "takeWhile (\<lambda>c. \<not> line_terminator c) remainder = remainder"
    using assms(4) by simp
  then have a: "after_first_segment (domain @ ''/'' @ remainder) = remainder"
    unfolding e by (simp only: after_first_segment_form(1) [OF assms(2,3)])
  have "snd (handleProxyRequest rangeError fetch request) =
          [(targetURL (first_segment (domain @ ''/'' @ remainder))
              (after_first_segment (domain @ ''/'' @ remainder))
              (url_search (req_url request)), request_init_of request)]"
    by (rule handler_translated [OF assms(1) p [symmetric] not_all_slashes [OF assms(2,3)]])
  then show "snd (handleProxyRequest rangeError fetch request) =
          [(''https://'' @ domain @ ''/'' @ remainder @ url_search (req_url request),
            request_init_of request)]"
    by (simp only: f a targetURL_def)
next
  assume p: "drop_leading_slash (url_pathname (req_url request)) = domain"
  have n: "\<not> (\<forall>c\<in>set domain. c = CHR ''/'')"
    using not_all_slashes [OF assms(2,3), of "[]"] by simp
  have "snd (handleProxyRequest rangeError fetch request) =
          [(targetURL (first_segment domain) (after_first_segment domain)
              (url_search (req_url request)), request_init_of request)]"
    by (rule handler_translated [OF assms(1) p [symmetric] n])
  then show "snd (handleProxyRequest rangeError fetch request) =
          [(''https://'' @ domain @ ''/'' @ url_search (req_url request),
            request_init_of request)]"
    by (simp only: first_segment_form(2) [OF assms(2,3)]
          after_first_segment_form(2) [OF assms(2,3)] targetURL_def append_Nil)
qed

theorem upstream_url_construction_witness:
  "req_method ex_request \<noteq> ''OPTIONS''
   \<and> drop_leading_slash (url_pathname (req_url ex_request)) = ''example.com'' @ ''/'' @ ''foo''
   \<and> snd (handleProxyRequest ex_rangeError ex_fetch_ok ex_request) =
       [(''https://example.com/foo?x=1'', request_init_of ex_request)]
   \<and> req_method ex_bare \<noteq> ''OPTIONS''
   \<and> drop_leading_slash (url_pathname (req_url ex_bare)) = ''example.com''
   \<and> snd (handleProxyRequest ex_rangeError ex_fetch_ok ex_bare) =
       [(''https://example.com/?x=1'', request_init_of ex_bare)]"
proof -
  have m: "req_method ex_request \<noteq> ''OPTIONS''" "req_method ex_bare \<noteq> ''OPTIONS''"
    by (simp_all add: ex_request_def ex_bare_def)
  have d: "''example.com'' \<noteq> []" "CHR ''/'' \<notin> set ''example.com''"
    by simp_all
  have r: "\<forall>c\<in>set ''foo''. \<not> line_terminator c"
    by (simp add: line_terminator_def)
  have p: "drop_leading_slash (url_pathname (req_url ex_request)) =
             ''example.com'' @ ''/'' @ ''foo''"
    "drop_leading_slash (url_pathname (req_url ex_bare)) = ''example.com''"
    by (simp_all add: ex_request_def ex_bare_def ex_url_def drop_leading_slash_def)
  have s: "url_search (req_url ex_request) = ''?x=1''" "url_search (req_url ex_bare) = ''?x=1''"
    by (simp_all add: ex_request_def ex_bare_def ex_url_def)
  show ?thesis
    using m p s upstream_url_construction [OF m(1) d r, of ex_rangeError ex_fetch_ok]
      upstream_url_construction [OF m(2) d r, of ex_rangeError ex_fetch_ok]
    by simp
qed

text \<open>
  C10. For a request whose method is not \<open>OPTIONS\<close> and whose path, one leading slash
  dropped, is not empty: the handler answers 400 with the JSON text
  \<open>{"error":"Invalid path format"}\<close>, calling nothing, exactly when the path consists of
  slashes only; otherwise the pattern matches, the domain is the first maximal run of
  characters other than the slash (leading slashes are skipped), and the upstream call
  goes to that domain.
\<close>

theorem invalid_path_format:
  assumes "req_method request \<noteq> ''OPTIONS''"
    and "path = drop_leading_slash (url_pathname (req_url request))"
    and "path \<noteq> []"
  shows \<open>((handleProxyRequest rangeError fetch request =
             (Inr \<lparr>resp_status = 400, resp_statusText = [],
                   resp_headers = [(''content-type'', ''application/json; charset=utf-8'')],
                   resp_body = Text ''{"error":"Invalid path format"}''\<rparr>, []))
           = (\<forall>c\<in>set path. c = CHR ''/''))
         \<and> ((serve_fetch rangeError fetch request =
             (Inr \<lparr>resp_status = 400, resp_statusText = [],
                   resp_headers = [(''content-type'', ''application/json; charset=utf-8'')],
                   resp_body = Text ''{"error":"Invalid path format"}''\<rparr>, []))
           = (\<forall>c\<in>set path. c = CHR ''/''))
         \<and> ((\<exists>c\<in>set path. c \<noteq> CHR ''/'') \<longrightarrow>
              path_match path = Some (first_segment path, after_first_segment path)
              \<and> snd (handleProxyRequest rangeError fetch request) =
                  [(''https://'' @ first_segment path @ ''/'' @ after_first_segment path
                      @ url_search (req_url request), request_init_of request)])\<close>
proof (cases "\<forall>c\<in>set path. c = CHR ''/''")
  case True
  have \<open>handleProxyRequest rangeError fetch request =
             (Inr \<lparr>resp_status = 400, resp_statusText = [],
                   resp_headers = [(''content-type'', ''application/json; charset=utf-8'')],
                   resp_body = Text ''{"error":"Invalid path format"}''\<rparr>, [])\<close>
    using handler_invalid_path [of request rangeError fetch] assms True
    by (simp add: json_accepted json_invalid_path_text)
  moreover from this have \<open>serve_fetch rangeError fetch request =
             (Inr \<lparr>resp_status = 400, resp_statusText = [],
                   resp_headers = [(''content-type'', ''application/json; charset=utf-8'')],
                   resp_body = Text ''{"error":"Invalid path format"}''\<rparr>, [])\<close>
    by (simp add: serve_fetch_def)
  ultimately show ?thesis using True by simp
next
  case False
  from handler_translated [OF assms(1,2) False, of rangeError fetch]
  have c: "snd (handleProxyRequest rangeError fetch request) =
             [(''https://'' @ first_segment path @ ''/'' @ after_first_segment path
                 @ url_search (req_url request), request_init_of request)]"
    by (simp add: targetURL_def)
  then have h: "handleProxyRequest rangeError fetch request \<noteq> (r, [])" for r
    by (cases "handleProxyRequest rangeError fetch request") auto
  from c have "snd (serve_fetch rangeError fetch request) \<noteq> []"
    by (simp add: serve_fetch_calls)
  then have "serve_fetch rangeError fetch request \<noteq> (r, [])" for r
    by (cases "serve_fetch rangeError fetch request") auto
  with h False c path_match_Some [OF False] show ?thesis by simp
qed

theorem invalid_path_format_witness:
  \<open>req_method ex_slashes \<noteq> ''OPTIONS''
   \<and> drop_leading_slash (url_pathname (req_url ex_slashes)) = ''/''
   \<and> handleProxyRequest ex_rangeError ex_fetch_ok ex_slashes =
       (Inr \<lparr>resp_status = 400, resp_statusText = [],
             resp_headers = [(''content-type'', ''application/json; charset=utf-8'')],
             resp_body = Text ''{"error":"Invalid path format"}''\<rparr>, [])
   \<and> serve_fetch ex_rangeError ex_fetch_ok ex_slashes =
       (Inr \<lparr>resp_status = 400, resp_statusText = [],
             resp_headers = [(''content-type'', ''application/json; charset=utf-8'')],
             resp_body = Text ''{"error":"Invalid path format"}''\<rparr>, [])
   \<and> req_method ex_double_slash \<noteq> ''OPTIONS''
   \<and> drop_leading_slash (url_pathname (req_url ex_double_slash)) = ''/example.com/foo''
   \<and> (\<exists>c\<in>set ''/example.com/foo''. c \<noteq> CHR ''/'')
   \<and> path_match ''/example.com/foo'' = Some (''example.com'', ''foo'')
   \<and> snd (handleProxyRequest ex_rangeError ex_fetch_ok ex_double_slash) =
       [(''https://example.com/foo?x=1'', request_init_of ex_double_slash)]\<close>
proof -
  have m: "req_method ex_slashes \<noteq> ''OPTIONS''" "req_method ex_double_slash \<noteq> ''OPTIONS''"
    by (simp_all add: ex_slashes_def ex_double_slash_def ex_request_def)
  have p: "''/'' = drop_leading_slash (url_pathname (req_url ex_slashes))"
    "''/example.com/foo'' = drop_leading_slash (url_pathname (req_url ex_double_slash))"
    by (simp_all add: ex_slashes_def ex_double_slash_def ex_request_def ex_url_def
          drop_leading_slash_def)
  have n: "''/'' \<noteq> []" "''/example.com/foo'' \<noteq> []"
    by simp_all
  have s: "url_search (req_url ex_double_slash) = ''?x=1''"
    by (simp add: ex_double_slash_def ex_request_def ex_url_def)
  have f: "first_segment ''/example.com/foo'' = ''example.com''"
    "after_first_segment ''/example.com/foo'' = ''foo''"
    by (simp_all add: first_segment_def after_first_segment_def line_terminator_def)
  have e: "\<exists>c\<in>set ''/example.com/foo''. c \<noteq> CHR ''/''"
    by simp
  show ?thesis
    using m p [symmetric] s e
      invalid_path_format [OF m(1) p(1) n(1), of ex_rangeError ex_fetch_ok]
      invalid_path_format [OF m(2) p(2) n(2), of ex_rangeError ex_fetch_ok]
    by (simp add: f)
qed

section \<open>Failure of the upstream call\<close>

text \<open>
  C7. When the call to \<open>fetch\<close> made for a forwarded request throws, the handler answers
  with status 500 and the JSON object whose \<open>error\<close> is \<open>Proxy error\<close>, whose
  \<open>message\<close> is the message of the error thrown (\<open>Unknown error\<close> when what was thrown is
  not an \<open>Error\<close>), and whose \<open>url\<close> is the URL that was passed to \<open>fetch\<close>.
\<close>

theorem fetch_failure_envelope:
  assumes "(u, i) \<in> set (snd (handleProxyRequest rangeError fetch request))"
    and "fetch u i = Inl err"
  shows \<open>fst (handleProxyRequest rangeError fetch request) =
           Inr \<lparr>resp_status = 500, resp_statusText = [],
                resp_headers = [(''content-type'', ''application/json; charset=utf-8'')],
                resp_body = Text (''{"error":"Proxy error","message":''
                  @ json_quote (case err of Error m \<Rightarrow> m | NonError \<Rightarrow> ''Unknown error'')
                  @ '',"url":'' @ json_quote u @ ''}'')\<rparr>
         \<and> fst (serve_fetch rangeError fetch request) =
           Inr \<lparr>resp_status = 500, resp_statusText = [],
                resp_headers = [(''content-type'', ''application/json; charset=utf-8'')],
                resp_body = Text (''{"error":"Proxy error","message":''
                  @ json_quote (case err of Error m \<Rightarrow> m | NonError \<Rightarrow> ''Unknown error'')
                  @ '',"url":'' @ json_quote u @ ''}'')\<rparr>\<close>
proof -
  have \<open>fst (handleProxyRequest rangeError fetch request) =
           Inr \<lparr>resp_status = 500, resp_statusText = [],
                resp_headers = [(''content-type'', ''application/json; charset=utf-8'')],
                resp_body = Text (''{"error":"Proxy error","message":''
                  @ json_quote (case err of Error m \<Rightarrow> m | NonError \<Rightarrow> ''Unknown error'')
                  @ '',"url":'' @ json_quote u @ ''}'')\<rparr>\<close>
    using handler_forwarded(4) [OF assms(1)] assms(2)
    by (simp add: json_accepted json_envelope_text)
  then show ?thesis
    using serve_fetch_returned [of rangeError fetch request] by simp
qed

theorem fetch_failure_envelope_witness:
  \<open>(''https://example.com/foo?x=1'', request_init_of ex_request)
       \<in> set (snd (handleProxyRequest ex_rangeError ex_fetch_fail ex_request))
   \<and> ex_fetch_fail ''https://example.com/foo?x=1'' (request_init_of ex_request) =
       Inl (Error ''Unable to connect'')
   \<and> fst (handleProxyRequest ex_rangeError ex_fetch_fail ex_request) =
       Inr \<lparr>resp_status = 500, resp_statusText = [],
            resp_headers = [(''content-type'', ''application/json; charset=utf-8'')],
            resp_body = Text
          ''{"error":"Proxy error","message":"Unable to connect","url":"https://example.com/foo?x=1"}''\<rparr>
   \<and> fst (serve_fetch ex_rangeError ex_fetch_fail ex_request) =
       Inr \<lparr>resp_status = 500, resp_statusText = [],
            resp_headers = [(''content-type'', ''application/json; charset=utf-8'')],
            resp_body = Text
          ''{"error":"Proxy error","message":"Unable to connect","url":"https://example.com/foo?x=1"}''\<rparr>\<close>
proof -
  have "\<not> (\<forall>c\<in>set ''example.com/foo''. c = CHR ''/'')"
    by simp
  moreover have "req_method ex_request \<noteq> ''OPTIONS''"
    by (simp add: ex_request_def)
  moreover have "''example.com/foo'' = drop_leading_slash (url_pathname (req_url ex_request))"
    by (simp add: ex_request_def ex_url_def drop_leading_slash_def)
  ultimately have "snd (handleProxyRequest ex_rangeError ex_fetch_fail ex_request) =
      [(targetURL (first_segment ''example.com/foo'') (after_first_segment ''example.com/foo'')
          (url_search (req_url ex_request)), request_init_of ex_request)]"
    using handler_translated [of ex_request "''example.com/foo''" ex_rangeError ex_fetch_fail]
    by blast
  then have c: "(''https://example.com/foo?x=1'', request_init_of ex_request)
       \<in> set (snd (handleProxyRequest ex_rangeError ex_fetch_fail ex_request))"
    by (simp add: targetURL_def first_segment_def after_first_segment_def line_terminator_def
          ex_request_def ex_url_def)
  have f: "ex_fetch_fail ''https://example.com/foo?x=1'' (request_init_of ex_request) =
       Inl (Error ''Unable to connect'')"
    by (simp add: ex_fetch_fail_def)
  show ?thesis
    using c f fetch_failure_envelope [OF c f]
    by (simp add: json_quote_def json_escape_char_def)
qed

section \<open>The headers sent upstream\<close>

lemma forward_allowed_values:
  "header_values (forward_allowed src) n =
     (case headers_get src n of
        Some v \<Rightarrow> if lower n \<in> set (map lower ALLOW_HEADERS) then [v] else []
      | None \<Rightarrow> [])"
  by (simp only: forward_allowed_fold header_values_fold_copy name_in_list)
     (simp add: header_values_def split: option.splits)

lemma fwdHeaders_names:
  assumes "lower n \<notin> set (map lower ALLOW_HEADERS)"
    and "lower n \<notin> {''x-forwarded-proto'', ''x-forwarded-for'', ''x-forwarded-host''}"
  shows "header_values (fwdHeaders request) n = []"
proof -
  have a: "header_values (forward_allowed (req_headers request)) n = []"
    using assms(1) by (simp add: forward_allowed_values split: option.splits)
  have "''user-agent'' \<in> set ALLOW_HEADERS"
    by (simp add: ALLOW_HEADERS_def)
  moreover have "\<not> (\<exists>h\<in>set ALLOW_HEADERS. name_eq h n)"
    using assms(1) by (simp only: name_in_list) simp
  ultimately have "\<not> name_eq ''user-agent'' n" by blast
  moreover have "name_eq ''User-Agent'' ''user-agent''" by (simp add: name_eval)
  ultimately have u: "\<not> name_eq ''User-Agent'' n"
    by (simp add: name_eq_def)
  have "lower ''X-Forwarded-Proto'' = ''x-forwarded-proto''"
    "lower ''X-Forwarded-For'' = ''x-forwarded-for''"
    "lower ''X-Forwarded-Host'' = ''x-forwarded-host''"
    by (simp_all add: name_eval)
  then have x: "\<not> name_eq ''X-Forwarded-Proto'' n" "\<not> name_eq ''X-Forwarded-For'' n"
    "\<not> name_eq ''X-Forwarded-Host'' n"
    using assms(2) by (auto simp: name_eq_def)
  show ?thesis
    using a u x
    by (simp add: fwdHeaders_def Let_def header_values_set split: option.splits)
qed

lemma fwdHeaders_forwarded_for:
  "headers_get (fwdHeaders request) ''x-forwarded-for'' =
     Some (case headers_get (req_headers request) ''x-forwarded-for'' of
             None \<Rightarrow> ''0.0.0.0'' | Some v \<Rightarrow> v)"
proof -
  have "\<not> name_eq ''User-Agent'' ''x-forwarded-for''"
    "\<not> name_eq ''X-Forwarded-Host'' ''x-forwarded-for''"
    "name_eq ''X-Forwarded-For'' ''x-forwarded-for''"
    by (simp_all add: name_eval)
  then show ?thesis
    by (simp add: fwdHeaders_def Let_def headers_get_set split: option.splits)
qed

lemma remove_first_last: "x \<notin> set cs \<Longrightarrow> remove_first x (cs @ [x]) = cs"
  by (induction cs) auto

lemma fwdHeaders_forwarded_proto:
  "headers_get (fwdHeaders request) ''x-forwarded-proto'' =
     Some (remove_first CHR '':'' (url_protocol (req_url request)))"
proof -
  have "\<not> name_eq ''User-Agent'' ''x-forwarded-proto''"
    "\<not> name_eq ''X-Forwarded-Host'' ''x-forwarded-proto''"
    "\<not> name_eq ''X-Forwarded-For'' ''x-forwarded-proto''"
    "name_eq ''X-Forwarded-Proto'' ''x-forwarded-proto''"
    by (simp_all add: name_eval)
  then show ?thesis
    by (simp add: fwdHeaders_def Let_def headers_get_set split: option.splits)
qed

lemma fwdHeaders_forwarded_host:
  "headers_get (fwdHeaders request) ''x-forwarded-host'' = Some (url_host (req_url request))"
proof -
  have "\<not> name_eq ''User-Agent'' ''x-forwarded-host''"
    "name_eq ''X-Forwarded-Host'' ''x-forwarded-host''"
    by (simp_all add: name_eval)
  then show ?thesis
    by (simp add: fwdHeaders_def Let_def headers_get_set split: option.splits)
qed

text \<open>The test of the user agent, letter by letter.\<close>

lemma lower_char_cases:
  "lower_char c = x \<longleftrightarrow>
     (if 65 \<le> (of_char c :: nat) \<and> (of_char c :: nat) \<le> 90
      then (of_char x :: nat) = of_char c + 32 else c = x)"
proof (cases "65 \<le> (of_char c :: nat) \<and> (of_char c :: nat) \<le> 90")
  case True
  then have "lower_char c = char_of (of_char c + 32 :: nat)"
    by (simp add: lower_char_def)
  moreover have "(char_of (of_char c + 32 :: nat) = x) = ((of_char x :: nat) = of_char c + 32)"
  proof
    assume "char_of (of_char c + 32 :: nat) = x"
    then have "(of_char x :: nat) = (of_char c + 32) mod 256" by (simp flip: of_char_of)
    with True show "(of_char x :: nat) = of_char c + 32" by simp
  next
    assume "(of_char x :: nat) = of_char c + 32"
    then have "char_of (of_char x :: nat) = char_of (of_char c + 32 :: nat)" by simp
    then show "char_of (of_char c + 32 :: nat) = x" by simp
  qed
  ultimately show ?thesis using True by simp
next
  case False
  then show ?thesis by (auto simp: lower_char_def Let_def)
qed

lemma char_code: "(c = x) = ((of_char c :: nat) = of_char x)"
  by simp

lemma lower_char_g: "lower_char c = CHR ''g'' \<longleftrightarrow> c = CHR ''g'' \<or> c = CHR ''G''"
  unfolding lower_char_cases by (subst (1 2 3) char_code) auto

lemma lower_char_i: "lower_char c = CHR ''i'' \<longleftrightarrow> c = CHR ''i'' \<or> c = CHR ''I''"
  unfolding lower_char_cases by (subst (1 2 3) char_code) auto

lemma lower_char_t: "lower_char c = CHR ''t'' \<longleftrightarrow> c = CHR ''t'' \<or> c = CHR ''T''"
  unfolding lower_char_cases by (subst (1 2 3) char_code) auto

lemma lower_char_slash: "lower_char c = CHR ''/'' \<longleftrightarrow> c = CHR ''/''"
  unfolding lower_char_cases by (subst (1 2) char_code) auto

lemma is_git_ua_iff: "is_git_ua ua = starts_with_git ua"
proof (cases ua)
  case Nil
  then show ?thesis by (simp add: is_git_ua_def starts_with_git_def lower_def)
next
  case (Cons a u1)
  show ?thesis
  proof (cases u1)
    case Nil
    with Cons show ?thesis by (simp add: is_git_ua_def starts_with_git_def lower_def)
  next
    case (Cons b u2)
    note c2 = Cons
    show ?thesis
    proof (cases u2)
      case Nil
      with \<open>ua = a # u1\<close> c2 show ?thesis
        by (simp add: is_git_ua_def starts_with_git_def lower_def)
    next
      case (Cons c u3)
      note c3 = Cons
      show ?thesis
      proof (cases u3)
        case Nil
        with \<open>ua = a # u1\<close> c2 c3 show ?thesis
          by (simp add: is_git_ua_def starts_with_git_def lower_def)
      next
        case (Cons d u4)
        with \<open>ua = a # u1\<close> c2 c3 show ?thesis
          by (simp add: is_git_ua_def starts_with_git_def lower_def
                lower_char_g lower_char_i lower_char_t lower_char_slash)
      qed
    qed
  qed
qed


lemma forward_allowed_user_agent:
  "headers_get (forward_allowed src) ''user-agent'' = headers_get src ''user-agent''"
proof -
  have "lower ''user-agent'' \<in> set (map lower ALLOW_HEADERS)"
    by (simp add: ALLOW_HEADERS_def name_eval)
  then show ?thesis
    by (simp add: headers_get_values [of "forward_allowed src"] forward_allowed_values
          split: option.splits)
qed

lemma fwdHeaders_user_agent:
  "headers_get (fwdHeaders request) ''user-agent'' =
     (case headers_get (req_headers request) ''user-agent'' of
        None \<Rightarrow> Some PROXY_UA
      | Some ua \<Rightarrow> if is_git_ua ua then Some ua else Some PROXY_UA)"
proof -
  have n: "\<not> name_eq ''X-Forwarded-Proto'' ''user-agent''"
    "\<not> name_eq ''X-Forwarded-For'' ''user-agent''"
    "\<not> name_eq ''X-Forwarded-Host'' ''user-agent''"
    "name_eq ''User-Agent'' ''user-agent''"
    by (simp_all add: name_eval)
  have e: "\<not> is_git_ua []" by (simp add: is_git_ua_def lower_def)
  show ?thesis
    using n e
    by (auto simp: fwdHeaders_def Let_def headers_get_set forward_allowed_user_agent
          split: option.splits)
qed


lemma ex_calls:
  assumes "req_method r \<noteq> ''OPTIONS''"
    and "url_pathname (req_url r) = ''/example.com/foo''"
    and "url_search (req_url r) = ''?x=1''"
  shows "snd (handleProxyRequest rangeError fetch r) = [(''https://example.com/foo?x=1'', request_init_of r)]"
proof -
  have p: "''example.com/foo'' = drop_leading_slash (url_pathname (req_url r))"
    by (simp add: assms(2) drop_leading_slash_def)
  have n: "\<not> (\<forall>c\<in>set ''example.com/foo''. c = CHR ''/'')"
    by simp
  show ?thesis
    using handler_translated [OF assms(1) p n, of rangeError fetch]
    by (simp add: assms(3) targetURL_def first_segment_def after_first_segment_def
          line_terminator_def)
qed

lemma ex_request_calls:
  "snd (handleProxyRequest rangeError fetch ex_request) =
     [(''https://example.com/foo?x=1'', request_init_of ex_request)]"
  by (rule ex_calls) (simp_all add: ex_request_def ex_url_def)

lemma ex_curl_calls:
  "snd (handleProxyRequest rangeError fetch ex_curl) =
     [(''https://example.com/foo?x=1'', request_init_of ex_curl)]"
  by (rule ex_calls) (simp_all add: ex_curl_def ex_request_def ex_url_def)

lemma ex_git_calls:
  "snd (handleProxyRequest rangeError fetch ex_git) =
     [(''https://example.com/foo?x=1'', request_init_of ex_git)]"
  by (rule ex_calls) (simp_all add: ex_git_def ex_request_def ex_url_def)

lemma ex_git_upper_calls:
  "snd (handleProxyRequest rangeError fetch ex_git_upper) =
     [(''https://example.com/foo?x=1'', request_init_of ex_git_upper)]"
  by (rule ex_calls) (simp_all add: ex_git_upper_def ex_request_def ex_url_def)

lemma ex_gitlab_calls:
  "snd (handleProxyRequest rangeError fetch ex_gitlab) =
     [(''https://example.com/foo?x=1'', request_init_of ex_gitlab)]"
  by (rule ex_calls) (simp_all add: ex_gitlab_def ex_request_def ex_url_def)

lemma init_headers_of [simp]: "init_headers (request_init_of request) = fwdHeaders request"
  by (simp add: request_init_of_def)

text \<open>
  C1. For a forwarded request (its method is not \<open>OPTIONS\<close>) and a header name of the
  inbound request that is neither in the Allowed Inbound Header Set nor one of the three
  forwarding-context names \<open>x-forwarded-proto\<close>, \<open>x-forwarded-for\<close> and
  \<open>x-forwarded-host\<close>, all compared without regard to case, the name is absent from the
  headers of the upstream request. The three forwarding-context headers are on every
  upstream request: \<open>x-forwarded-proto\<close> is the protocol of the inbound URL without its
  colon, \<open>x-forwarded-for\<close> is the inbound header of that name, or \<open>0.0.0.0\<close> when there
  is none, and \<open>x-forwarded-host\<close> is the host of the inbound URL.
\<close>

theorem inbound_headers_filtered:
  assumes "(u, i) \<in> set (snd (handleProxyRequest rangeError fetch request))"
  shows "(headers_has (req_headers request) n
            \<and> lower n \<notin> set (map lower ALLOW_HEADERS)
            \<and> lower n \<notin> {''x-forwarded-proto'', ''x-forwarded-for'', ''x-forwarded-host''}
          \<longrightarrow> \<not> headers_has (init_headers i) n)
       \<and> headers_get (init_headers i) ''x-forwarded-proto'' =
           Some (remove_first CHR '':'' (url_protocol (req_url request)))
       \<and> (url_protocol (req_url request) = scheme @ '':'' \<and> CHR '':'' \<notin> set scheme
          \<longrightarrow> headers_get (init_headers i) ''x-forwarded-proto'' = Some scheme)
       \<and> headers_get (init_headers i) ''x-forwarded-for'' =
           Some (case headers_get (req_headers request) ''x-forwarded-for'' of
                   None \<Rightarrow> ''0.0.0.0'' | Some v \<Rightarrow> v)
       \<and> headers_get (init_headers i) ''x-forwarded-host'' = Some (url_host (req_url request))"
proof -
  have i: "init_headers i = fwdHeaders request"
    using handler_forwarded(2) [OF assms] by simp
  have a: "headers_has (req_headers request) n
            \<and> lower n \<notin> set (map lower ALLOW_HEADERS)
            \<and> lower n \<notin> {''x-forwarded-proto'', ''x-forwarded-for'', ''x-forwarded-host''}
          \<longrightarrow> \<not> headers_has (init_headers i) n"
    using fwdHeaders_names [of n request] by (simp only: i headers_has_values) blast
  have p: "url_protocol (req_url request) = scheme @ '':'' \<and> CHR '':'' \<notin> set scheme
          \<longrightarrow> headers_get (init_headers i) ''x-forwarded-proto'' = Some scheme"
    using remove_first_last [of "CHR '':''" scheme]
    by (auto simp: i fwdHeaders_forwarded_proto)
  show ?thesis
    using a p
    by (simp add: i fwdHeaders_forwarded_proto fwdHeaders_forwarded_for
          fwdHeaders_forwarded_host)
qed

theorem inbound_headers_filtered_witness:
  "(''https://example.com/foo?x=1'', request_init_of ex_request)
      \<in> set (snd (handleProxyRequest ex_rangeError ex_fetch_ok ex_request))
   \<and> headers_has (req_headers ex_request) ''cookie''
   \<and> lower ''cookie'' \<notin> set (map lower ALLOW_HEADERS)
   \<and> lower ''cookie'' \<notin> {''x-forwarded-proto'', ''x-forwarded-for'', ''x-forwarded-host''}
   \<and> \<not> headers_has (init_headers (request_init_of ex_request)) ''cookie''
   \<and> url_protocol (req_url ex_request) = ''http'' @ '':'' \<and> CHR '':'' \<notin> set ''http''
   \<and> headers_get (init_headers (request_init_of ex_request)) ''x-forwarded-proto'' =
       Some ''http''
   \<and> headers_get (init_headers (request_init_of ex_request)) ''x-forwarded-for'' =
       Some ''10.1.2.3''
   \<and> headers_get (init_headers (request_init_of ex_request)) ''x-forwarded-host'' =
       Some ''localhost:3000''
   \<and> (''https://example.com/foo?x=1'', request_init_of ex_curl)
      \<in> set (snd (handleProxyRequest ex_rangeError ex_fetch_ok ex_curl))
   \<and> headers_get (req_headers ex_curl) ''x-forwarded-for'' = None
   \<and> headers_get (init_headers (request_init_of ex_curl)) ''x-forwarded-for'' =
       Some ''0.0.0.0''"
proof -
  have c: "(''https://example.com/foo?x=1'', request_init_of ex_request)
      \<in> set (snd (handleProxyRequest ex_rangeError ex_fetch_ok ex_request))"
    "(''https://example.com/foo?x=1'', request_init_of ex_curl)
      \<in> set (snd (handleProxyRequest ex_rangeError ex_fetch_ok ex_curl))"
    by (simp_all add: ex_request_calls ex_curl_calls)
  have h: "headers_has (req_headers ex_request) ''cookie''"
    by (simp add: ex_request_def headers_has_def name_eval)
  have a: "lower ''cookie'' \<notin> set (map lower ALLOW_HEADERS)"
    by (simp add: ALLOW_HEADERS_def name_eval)
  have x: "lower ''cookie'' \<notin> {''x-forwarded-proto'', ''x-forwarded-for'', ''x-forwarded-host''}"
    by (simp add: name_eval)
  have p: "url_protocol (req_url ex_request) = ''http'' @ '':''" "CHR '':'' \<notin> set ''http''"
    "url_host (req_url ex_request) = ''localhost:3000''"
    by (simp_all add: ex_request_def ex_url_def)
  have g: "headers_get (req_headers ex_request) ''x-forwarded-for'' = Some ''10.1.2.3''"
    "headers_get (req_headers ex_curl) ''x-forwarded-for'' = None"
    by (simp_all add: ex_request_def ex_curl_def headers_get_def name_eval)
  show ?thesis
    using c h a x p g
      inbound_headers_filtered [OF c(1), of "''cookie''" "''http''"]
      inbound_headers_filtered [OF c(2), of "''cookie''" "''http''"]
    by simp
qed

text \<open>
  The three forwarding-context headers are set on every upstream request, and
  \<open>x-forwarded-for\<close> takes the value of the inbound header of that name: a name outside
  the Allowed Inbound Header Set that does reach the upstream request, value included.
\<close>

theorem inbound_headers_filtered_counterexample:
  "req_method ex_request \<noteq> ''OPTIONS''
   \<and> headers_has (req_headers ex_request) ''x-forwarded-for''
   \<and> lower ''x-forwarded-for'' \<notin> set (map lower ALLOW_HEADERS)
   \<and> snd (handleProxyRequest ex_rangeError ex_fetch_ok ex_request) =
       [(''https://example.com/foo?x=1'', request_init_of ex_request)]
   \<and> headers_has (init_headers (request_init_of ex_request)) ''x-forwarded-for''
   \<and> headers_get (init_headers (request_init_of ex_request)) ''x-forwarded-for'' =
       Some ''10.1.2.3''"
proof -
  have g: "headers_get (req_headers ex_request) ''x-forwarded-for'' = Some ''10.1.2.3''"
    by (simp add: ex_request_def headers_get_def name_eval)
  have h: "headers_has (req_headers ex_request) ''x-forwarded-for''"
    by (simp add: headers_has_get g)
  have a: "lower ''x-forwarded-for'' \<notin> set (map lower ALLOW_HEADERS)"
    by (simp add: ALLOW_HEADERS_def name_eval)
  have o: "headers_get (init_headers (request_init_of ex_request)) ''x-forwarded-for'' =
       Some ''10.1.2.3''"
    by (simp add: fwdHeaders_forwarded_for g)
  have m: "req_method ex_request \<noteq> ''OPTIONS''"
    by (simp add: ex_request_def)
  show ?thesis
    using m h a o ex_request_calls [of ex_rangeError ex_fetch_ok] by (simp add: headers_has_get)
qed

text \<open>
  C3. On the upstream request of every forwarded request, the user agent is the fixed
  text \<open>git/@isomorphic-git/cors-proxy (bun)\<close> when the inbound request has no user agent
  or one that does not start with \<open>git/\<close>, each letter taken in either case, and is the
  inbound user agent otherwise.
\<close>

theorem user_agent_normalised:
  assumes "(u, i) \<in> set (snd (handleProxyRequest rangeError fetch request))"
  shows "headers_get (init_headers i) ''user-agent'' =
           (case headers_get (req_headers request) ''user-agent'' of
              None \<Rightarrow> Some ''git/@isomorphic-git/cors-proxy (bun)''
            | Some ua \<Rightarrow>
                if starts_with_git ua then Some ua
                else Some ''git/@isomorphic-git/cors-proxy (bun)'')"
  using handler_forwarded(2) [OF assms]
  by (simp add: fwdHeaders_user_agent is_git_ua_iff PROXY_UA_def split: option.splits)

theorem user_agent_normalised_witness:
  "(''https://example.com/foo?x=1'', request_init_of ex_request)
      \<in> set (snd (handleProxyRequest ex_rangeError ex_fetch_ok ex_request))
   \<and> headers_get (req_headers ex_request) ''user-agent'' = None
   \<and> headers_get (init_headers (request_init_of ex_request)) ''user-agent'' =
       Some ''git/@isomorphic-git/cors-proxy (bun)''
   \<and> (''https://example.com/foo?x=1'', request_init_of ex_curl)
      \<in> set (snd (handleProxyRequest ex_rangeError ex_fetch_ok ex_curl))
   \<and> headers_get (req_headers ex_curl) ''user-agent'' = Some ''curl/8.0''
   \<and> headers_get (init_headers (request_init_of ex_curl)) ''user-agent'' =
       Some ''git/@isomorphic-git/cors-proxy (bun)''
   \<and> (''https://example.com/foo?x=1'', request_init_of ex_gitlab)
      \<in> set (snd (handleProxyRequest ex_rangeError ex_fetch_ok ex_gitlab))
   \<and> headers_get (req_headers ex_gitlab) ''user-agent'' = Some ''gitlab/1.0''
   \<and> headers_get (init_headers (request_init_of ex_gitlab)) ''user-agent'' =
       Some ''git/@isomorphic-git/cors-proxy (bun)''
   \<and> (''https://example.com/foo?x=1'', request_init_of ex_git)
      \<in> set (snd (handleProxyRequest ex_rangeError ex_fetch_ok ex_git))
   \<and> headers_get (req_headers ex_git) ''user-agent'' = Some ''git/2.40.0''
   \<and> headers_get (init_headers (request_init_of ex_git)) ''user-agent'' = Some ''git/2.40.0''
   \<and> (''https://example.com/foo?x=1'', request_init_of ex_git_upper)
      \<in> set (snd (handleProxyRequest ex_rangeError ex_fetch_ok ex_git_upper))
   \<and> headers_get (req_headers ex_git_upper) ''user-agent'' = Some ''GiT/2.40.0''
   \<and> headers_get (init_headers (request_init_of ex_git_upper)) ''user-agent'' =
       Some ''GiT/2.40.0''"
proof -
  have c: "(''https://example.com/foo?x=1'', request_init_of ex_request)
      \<in> set (snd (handleProxyRequest ex_rangeError ex_fetch_ok ex_request))"
    "(''https://example.com/foo?x=1'', request_init_of ex_curl)
      \<in> set (snd (handleProxyRequest ex_rangeError ex_fetch_ok ex_curl))"
    "(''https://example.com/foo?x=1'', request_init_of ex_gitlab)
      \<in> set (snd (handleProxyRequest ex_rangeError ex_fetch_ok ex_gitlab))"
    "(''https://example.com/foo?x=1'', request_init_of ex_git)
      \<in> set (snd (handleProxyRequest ex_rangeError ex_fetch_ok ex_git))"
    "(''https://example.com/foo?x=1'', request_init_of ex_git_upper)
      \<in> set (snd (handleProxyRequest ex_rangeError ex_fetch_ok ex_git_upper))"
    by (simp_all add: ex_request_calls ex_curl_calls ex_gitlab_calls ex_git_calls
          ex_git_upper_calls)
  have g: "headers_get (req_headers ex_request) ''user-agent'' = None"
    "headers_get (req_headers ex_curl) ''user-agent'' = Some ''curl/8.0''"
    "headers_get (req_headers ex_gitlab) ''user-agent'' = Some ''gitlab/1.0''"
    "headers_get (req_headers ex_git) ''user-agent'' = Some ''git/2.40.0''"
    "headers_get (req_headers ex_git_upper) ''user-agent'' = Some ''GiT/2.40.0''"
    by (simp_all add: ex_request_def ex_curl_def ex_gitlab_def ex_git_def ex_git_upper_def
          headers_get_def name_eval)
  have t: "\<not> starts_with_git ''curl/8.0''" "\<not> starts_with_git ''gitlab/1.0''"
    "starts_with_git ''git/2.40.0''" "starts_with_git ''GiT/2.40.0''"
    by (simp_all add: starts_with_git_def)
  show ?thesis
    using c g t user_agent_normalised [OF c(1)] user_agent_normalised [OF c(2)]
      user_agent_normalised [OF c(3)] user_agent_normalised [OF c(4)]
      user_agent_normalised [OF c(5)]
    by simp
qed

section \<open>The headers sent back to the client\<close>

lemma outHeaders_values:
  "header_values (outHeaders upstream) n =
     (if up_redirected upstream \<and> name_eq ''x-redirected-url'' n then [up_url upstream]
      else case headers_get (up_headers upstream) n of
             Some v \<Rightarrow>
               if \<exists>h\<in>set (filter (\<lambda>h. h \<noteq> ''content-length'') EXPOSE_HEADERS). name_eq h n
               then [v] else header_values corsHeaders n
           | None \<Rightarrow> header_values corsHeaders n)"
  by (simp add: outHeaders_def Let_def expose_fold header_values_fold_copy header_values_set
        new_Headers_cors)

lemma exposed_not_content_length:
  "\<not> (\<exists>h\<in>set (filter (\<lambda>h. h \<noteq> ''content-length'') EXPOSE_HEADERS).
         name_eq h ''content-length'')"
  by (simp add: EXPOSE_HEADERS_def name_eval)

lemma cors_values_content_length: "header_values corsHeaders ''content-length'' = []"
  by (simp add: corsHeaders_def header_values_def name_eval)

lemma outHeaders_content_length: "header_values (outHeaders upstream) ''content-length'' = []"
proof -
  have "\<not> name_eq ''x-redirected-url'' ''content-length''"
    by (simp add: name_eval)
  then show ?thesis
    using exposed_not_content_length
    by (simp only: outHeaders_values cors_values_content_length) (simp split: option.splits)
qed

lemma exposed_redirected_url:
  "\<exists>h\<in>set (filter (\<lambda>h. h \<noteq> ''content-length'') EXPOSE_HEADERS).
         name_eq h ''x-redirected-url''"
  by (simp add: EXPOSE_HEADERS_def name_eval)

lemma cors_values_redirected_url: "header_values corsHeaders ''x-redirected-url'' = []"
  by (simp add: corsHeaders_def header_values_def name_eval)

lemma outHeaders_redirected_url:
  "headers_get (outHeaders upstream) ''x-redirected-url'' =
     (if up_redirected upstream then Some (up_url upstream)
      else headers_get (up_headers upstream) ''x-redirected-url'')"
proof -
  have "name_eq ''x-redirected-url'' ''x-redirected-url''" by (simp add: name_eq_def)
  then show ?thesis
    using exposed_redirected_url
    by (simp add: headers_get_values [of "outHeaders upstream"] outHeaders_values
          cors_values_redirected_url split: option.splits)
qed

lemma outHeaders_names:
  assumes "lower n \<notin> set (map lower EXPOSE_HEADERS)"
    and "lower n \<notin> set (map (\<lambda>h. lower (fst h)) corsHeaders)"
  shows "header_values (outHeaders upstream) n = []"
proof -
  have c: "header_values corsHeaders n = []"
    using assms(2) header_values_names [of corsHeaders n] by blast
  have x: "\<not> (\<exists>h\<in>set EXPOSE_HEADERS. name_eq h n)"
    using assms(1) by (simp only: name_in_list) simp
  have "''x-redirected-url'' \<in> set EXPOSE_HEADERS" by (simp add: EXPOSE_HEADERS_def)
  with x have r: "\<not> name_eq ''x-redirected-url'' n"
    by blast
  from x have e:
    "\<not> (\<exists>h\<in>set (filter (\<lambda>h. h \<noteq> ''content-length'') EXPOSE_HEADERS). name_eq h n)"
    by simp
  show ?thesis
    using r e by (simp only: outHeaders_values c) (simp split: option.splits)
qed

text \<open>
  What the client receives after an upstream answer: the answer relayed when its status
  can be given to a \<open>Response\<close>, the 500 envelope of the server otherwise.
\<close>

lemma handler_relayed:
  assumes "(u, i) \<in> set (snd (handleProxyRequest rangeError fetch request))"
    and "fetch u i = Inr upstream"
    and "200 \<le> up_status upstream" and "up_status upstream \<le> 599"
  shows "fst (handleProxyRequest rangeError fetch request) =
           Inr \<lparr>resp_status = up_status upstream, resp_statusText = up_statusText upstream,
                resp_headers = outHeaders upstream,
                resp_body = (case up_body upstream of None \<Rightarrow> Null | Some b \<Rightarrow> Stream b)\<rparr>"
  using handler_forwarded(4) [OF assms(1)] assms(2,3,4) by (simp add: new_Response_def)

lemma handler_refused:
  assumes "(u, i) \<in> set (snd (handleProxyRequest rangeError fetch request))"
    and "fetch u i = Inr upstream"
    and "\<not> (200 \<le> up_status upstream \<and> up_status upstream \<le> 599)"
  shows "fst (handleProxyRequest rangeError fetch request) =
           Inl (Error (rangeError (up_status upstream)))"
  using handler_forwarded(4) [OF assms(1)] assms(2,3) by (simp add: new_Response_def)

lemma serve_fetch_refused:
  assumes "(u, i) \<in> set (snd (handleProxyRequest rangeError fetch request))"
    and "fetch u i = Inr upstream"
    and "\<not> (200 \<le> up_status upstream \<and> up_status upstream \<le> 599)"
  shows "fst (serve_fetch rangeError fetch request) =
           Inr \<lparr>resp_status = 500, resp_statusText = [],
                resp_headers = [(''content-type'', ''application/json; charset=utf-8'')],
                resp_body = Text (JSON_stringify
                  [(''error'', ''Proxy error''),
                   (''message'', rangeError (up_status upstream))])\<rparr>"
  using serve_fetch_caught [OF handler_refused [OF assms]] by simp

lemma content_type_values:
  "header_values [(''content-type'', v)] n = (if name_eq ''content-type'' n then [v] else [])"
  by (simp add: header_values_def)

lemma ex_fetch_ok_headers:
  "fst (serve_fetch ex_rangeError ex_fetch_ok ex_request) =
     Inr \<lparr>resp_status = 200, resp_statusText = ''OK'', resp_headers = outHeaders ex_upstream,
          resp_body = Stream ''hello''\<rparr>"
proof -
  have c: "(''https://example.com/foo?x=1'', request_init_of ex_request)
          \<in> set (snd (handleProxyRequest ex_rangeError ex_fetch_ok ex_request))"
    by (simp add: ex_request_calls)
  have f: "ex_fetch_ok ''https://example.com/foo?x=1'' (request_init_of ex_request) =
          Inr ex_upstream"
    by (simp add: ex_fetch_ok_def)
  have "200 \<le> up_status ex_upstream" "up_status ex_upstream \<le> 599"
    by (simp_all add: ex_upstream_def)
  from handler_relayed [OF c f this] show ?thesis
    using serve_fetch_returned [of ex_rangeError ex_fetch_ok ex_request]
    by (simp add: ex_upstream_def)
qed

lemma cors_names:
  "map (\<lambda>h. lower (fst h)) corsHeaders =
     [''access-control-allow-origin'', ''access-control-allow-methods'',
      ''access-control-allow-headers'', ''access-control-expose-headers'',
      ''access-control-max-age'']"
  by (simp add: corsHeaders_def lower_def lower_char_def char_of_def bit_Suc_0_iff)

text \<open>
  C5. When the upstream call succeeds, the response that the handler returns, and the
  response that the client receives in every case, has no \<open>content-length\<close> header,
  whether or not the upstream response has one.
\<close>

theorem content_length_not_copied:
  assumes "(u, i) \<in> set (snd (handleProxyRequest rangeError fetch request))"
    and "fetch u i = Inr upstream"
  shows "(case fst (handleProxyRequest rangeError fetch request) of
            Inl err \<Rightarrow> True
          | Inr response \<Rightarrow> \<not> headers_has (resp_headers response) ''content-length'')
       \<and> (case fst (serve_fetch rangeError fetch request) of
            Inl err \<Rightarrow> False
          | Inr response \<Rightarrow> \<not> headers_has (resp_headers response) ''content-length'')"
proof (cases "200 \<le> up_status upstream \<and> up_status upstream \<le> 599")
  case True
  then have "fst (handleProxyRequest rangeError fetch request) =
           Inr \<lparr>resp_status = up_status upstream, resp_statusText = up_statusText upstream,
                resp_headers = outHeaders upstream,
                resp_body = (case up_body upstream of None \<Rightarrow> Null | Some b \<Rightarrow> Stream b)\<rparr>"
    using handler_relayed [OF assms] by simp
  then show ?thesis
    using serve_fetch_returned [of rangeError fetch request]
    by (simp add: headers_has_values outHeaders_content_length)
next
  case False
  have "\<not> name_eq ''content-type'' ''content-length''"
    by (simp add: name_eval)
  then show ?thesis
    using handler_refused [OF assms False] serve_fetch_refused [OF assms False]
    by (simp add: headers_has_values content_type_values)
qed

theorem content_length_not_copied_witness:
  "(''https://example.com/foo?x=1'', request_init_of ex_request)
      \<in> set (snd (handleProxyRequest ex_rangeError ex_fetch_ok ex_request))
   \<and> ex_fetch_ok ''https://example.com/foo?x=1'' (request_init_of ex_request) = Inr ex_upstream
   \<and> headers_get (up_headers ex_upstream) ''content-length'' = Some ''12''
   \<and> fst (serve_fetch ex_rangeError ex_fetch_ok ex_request) =
       Inr \<lparr>resp_status = 200, resp_statusText = ''OK'', resp_headers = outHeaders ex_upstream,
            resp_body = Stream ''hello''\<rparr>
   \<and> \<not> headers_has (outHeaders ex_upstream) ''content-length''"
proof -
  have c: "(''https://example.com/foo?x=1'', request_init_of ex_request)
      \<in> set (snd (handleProxyRequest ex_rangeError ex_fetch_ok ex_request))"
    by (simp add: ex_request_calls)
  have f: "ex_fetch_ok ''https://example.com/foo?x=1'' (request_init_of ex_request) =
      Inr ex_upstream"
    by (simp add: ex_fetch_ok_def)
  have g: "headers_get (up_headers ex_upstream) ''content-length'' = Some ''12''"
    by (simp add: ex_upstream_def headers_get_def name_eval)
  show ?thesis
    using c f g content_length_not_copied [OF c f]
    by (simp add: ex_fetch_ok_headers)
qed

text \<open>
  C6. When the upstream call succeeds, a header name of the upstream response that is
  neither in the Exposed Outbound Header Set nor one of the five CORS header names, all
  compared without regard to case, is absent from the headers of the response that the
  handler returns, and of the response that the client receives in every case.
\<close>

theorem upstream_headers_filtered:
  assumes "(u, i) \<in> set (snd (handleProxyRequest rangeError fetch request))"
    and "fetch u i = Inr upstream"
    and "headers_has (up_headers upstream) n"
    and "lower n \<notin> set (map lower EXPOSE_HEADERS)"
    and "lower n \<notin> {''access-control-allow-origin'', ''access-control-allow-methods'',
           ''access-control-allow-headers'', ''access-control-expose-headers'',
           ''access-control-max-age''}"
  shows "(case fst (handleProxyRequest rangeError fetch request) of
            Inl err \<Rightarrow> True
          | Inr response \<Rightarrow> \<not> headers_has (resp_headers response) n)
       \<and> (case fst (serve_fetch rangeError fetch request) of
            Inl err \<Rightarrow> False
          | Inr response \<Rightarrow> \<not> headers_has (resp_headers response) n)"
proof (cases "200 \<le> up_status upstream \<and> up_status upstream \<le> 599")
  case True
  have "lower n \<notin> set (map (\<lambda>h. lower (fst h)) corsHeaders)"
    using assms(5) by (simp only: cors_names) simp
  from outHeaders_names [OF assms(4) this, of upstream]
  have o: "\<not> headers_has (outHeaders upstream) n"
    by (simp add: headers_has_values)
  from True have "fst (handleProxyRequest rangeError fetch request) =
           Inr \<lparr>resp_status = up_status upstream, resp_statusText = up_statusText upstream,
                resp_headers = outHeaders upstream,
                resp_body = (case up_body upstream of None \<Rightarrow> Null | Some b \<Rightarrow> Stream b)\<rparr>"
    using handler_relayed [OF assms(1,2)] by simp
  then show ?thesis
    using o serve_fetch_returned [of rangeError fetch request] by simp
next
  case False
  have "''content-type'' \<in> set EXPOSE_HEADERS"
    by (simp add: EXPOSE_HEADERS_def)
  moreover have "\<not> (\<exists>h\<in>set EXPOSE_HEADERS. name_eq h n)"
    using assms(4) by (simp only: name_in_list) simp
  ultimately have "\<not> name_eq ''content-type'' n"
    by blast
  then show ?thesis
    using handler_refused [OF assms(1,2) False] serve_fetch_refused [OF assms(1,2) False]
    by (simp add: headers_has_values content_type_values)
qed

theorem upstream_headers_filtered_witness:
  "(''https://example.com/foo?x=1'', request_init_of ex_request)
      \<in> set (snd (handleProxyRequest ex_rangeError ex_fetch_ok ex_request))
   \<and> ex_fetch_ok ''https://example.com/foo?x=1'' (request_init_of ex_request) = Inr ex_upstream
   \<and> headers_has (up_headers ex_upstream) ''set-cookie''
   \<and> lower ''set-cookie'' \<notin> set (map lower EXPOSE_HEADERS)
   \<and> lower ''set-cookie'' \<notin> {''access-control-allow-origin'', ''access-control-allow-methods'',
           ''access-control-allow-headers'', ''access-control-expose-headers'',
           ''access-control-max-age''}
   \<and> fst (serve_fetch ex_rangeError ex_fetch_ok ex_request) =
       Inr \<lparr>resp_status = 200, resp_statusText = ''OK'', resp_headers = outHeaders ex_upstream,
            resp_body = Stream ''hello''\<rparr>
   \<and> \<not> headers_has (outHeaders ex_upstream) ''set-cookie''"
proof -
  have c: "(''https://example.com/foo?x=1'', request_init_of ex_request)
      \<in> set (snd (handleProxyRequest ex_rangeError ex_fetch_ok ex_request))"
    by (simp add: ex_request_calls)
  have f: "ex_fetch_ok ''https://example.com/foo?x=1'' (request_init_of ex_request) =
      Inr ex_upstream"
    by (simp add: ex_fetch_ok_def)
  have h: "headers_has (up_headers ex_upstream) ''set-cookie''"
    by (simp add: ex_upstream_def headers_has_def name_eval)
  have e: "lower ''set-cookie'' \<notin> set (map lower EXPOSE_HEADERS)"
    by (simp add: EXPOSE_HEADERS_def name_eval)
  have x: "lower ''set-cookie'' \<notin> {''access-control-allow-origin'',
           ''access-control-allow-methods'', ''access-control-allow-headers'',
           ''access-control-expose-headers'', ''access-control-max-age''}"
    by (simp add: name_eval)
  show ?thesis
    using c f h e x upstream_headers_filtered [OF c f h e x]
    by (simp add: ex_fetch_ok_headers)
qed

text \<open>
  The five CORS headers are on every relayed response with the values of \<open>corsHeaders\<close>:
  an upstream \<open>access-control-allow-origin\<close> is outside the Exposed Outbound Header Set
  and its name is on the response all the same, with the value \<open>*\<close>.
\<close>

theorem upstream_headers_filtered_counterexample:
  "ex_fetch_ok ''https://example.com/foo?x=1'' (request_init_of ex_request) = Inr ex_upstream
   \<and> snd (handleProxyRequest ex_rangeError ex_fetch_ok ex_request) =
       [(''https://example.com/foo?x=1'', request_init_of ex_request)]
   \<and> headers_has (up_headers ex_upstream) ''access-control-allow-origin''
   \<and> lower ''access-control-allow-origin'' \<notin> set (map lower EXPOSE_HEADERS)
   \<and> fst (serve_fetch ex_rangeError ex_fetch_ok ex_request) =
       Inr \<lparr>resp_status = 200, resp_statusText = ''OK'', resp_headers = outHeaders ex_upstream,
            resp_body = Stream ''hello''\<rparr>
   \<and> headers_has (outHeaders ex_upstream) ''access-control-allow-origin''
   \<and> headers_get (outHeaders ex_upstream) ''access-control-allow-origin'' = Some ''*''"
proof -
  have f: "ex_fetch_ok ''https://example.com/foo?x=1'' (request_init_of ex_request) =
      Inr ex_upstream"
    by (simp add: ex_fetch_ok_def)
  have h: "headers_has (up_headers ex_upstream) ''access-control-allow-origin''"
    by (simp add: ex_upstream_def headers_has_def name_eval)
  have e: "lower ''access-control-allow-origin'' \<notin> set (map lower EXPOSE_HEADERS)"
    by (simp add: EXPOSE_HEADERS_def name_eval)
  have v: "header_values corsHeaders ''access-control-allow-origin'' = [''*'']"
    by (simp add: corsHeaders_def header_values_def name_eval)
  have r: "\<not> name_eq ''x-redirected-url'' ''access-control-allow-origin''"
    by (simp add: name_eval)
  have x: "\<not> (\<exists>h\<in>set (filter (\<lambda>h. h \<noteq> ''content-length'') EXPOSE_HEADERS).
              name_eq h ''access-control-allow-origin'')"
    by (simp add: EXPOSE_HEADERS_def name_eval)
  have "header_values (outHeaders ex_upstream) ''access-control-allow-origin'' = [''*'']"
    using r x by (simp only: outHeaders_values v) (simp split: option.splits)
  then have o: "headers_get (outHeaders ex_upstream) ''access-control-allow-origin'' = Some ''*''"
    by (simp add: headers_get_values)
  show ?thesis
    using f h e o ex_request_calls [of ex_rangeError ex_fetch_ok]
    by (simp add: ex_fetch_ok_headers headers_has_get)
qed

text \<open>
  C9. When the upstream call succeeds with a status from 200 to 599, the
  \<open>x-redirected-url\<close> header of the response to the client is the final upstream URL if
  redirects were followed; if none was, it is the \<open>x-redirected-url\<close> header of the
  upstream response, and absent when the upstream response has none.
\<close>

theorem redirected_url_header:
  assumes "(u, i) \<in> set (snd (handleProxyRequest rangeError fetch request))"
    and "fetch u i = Inr upstream"
    and "200 \<le> up_status upstream" and "up_status upstream \<le> 599"
  shows "(case fst (handleProxyRequest rangeError fetch request) of
            Inl err \<Rightarrow> False
          | Inr response \<Rightarrow>
              headers_get (resp_headers response) ''x-redirected-url'' =
                (if up_redirected upstream then Some (up_url upstream)
                 else headers_get (up_headers upstream) ''x-redirected-url''))
       \<and> (case fst (serve_fetch rangeError fetch request) of
            Inl err \<Rightarrow> False
          | Inr response \<Rightarrow>
              headers_get (resp_headers response) ''x-redirected-url'' =
                (if up_redirected upstream then Some (up_url upstream)
                 else headers_get (up_headers upstream) ''x-redirected-url''))"
  using handler_relayed [OF assms] serve_fetch_returned [of rangeError fetch request]
  by (simp add: outHeaders_redirected_url)

theorem redirected_url_header_witness:
  "(''https://example.com/foo?x=1'', request_init_of ex_request)
      \<in> set (snd (handleProxyRequest ex_rangeError ex_fetch_redirected ex_request))
   \<and> ex_fetch_redirected ''https://example.com/foo?x=1'' (request_init_of ex_request) =
      Inr (ex_upstream\<lparr>up_redirected := True, up_url := ''https://www.example.com/foo?x=1''\<rparr>)
   \<and> (case fst (serve_fetch ex_rangeError ex_fetch_redirected ex_request) of
         Inl err \<Rightarrow> False
       | Inr response \<Rightarrow>
           headers_get (resp_headers response) ''x-redirected-url'' =
             Some ''https://www.example.com/foo?x=1'')
   \<and> (''https://example.com/foo?x=1'', request_init_of ex_request)
      \<in> set (snd (handleProxyRequest ex_rangeError ex_fetch_plain ex_request))
   \<and> ex_fetch_plain ''https://example.com/foo?x=1'' (request_init_of ex_request) =
      Inr (ex_upstream\<lparr>up_headers := [(''ETag'', ''abc'')]\<rparr>)
   \<and> (case fst (serve_fetch ex_rangeError ex_fetch_plain ex_request) of
         Inl err \<Rightarrow> False
       | Inr response \<Rightarrow> headers_get (resp_headers response) ''x-redirected-url'' = None)"
proof -
  have c: "(''https://example.com/foo?x=1'', request_init_of ex_request)
      \<in> set (snd (handleProxyRequest ex_rangeError ex_fetch_redirected ex_request))"
    "(''https://example.com/foo?x=1'', request_init_of ex_request)
      \<in> set (snd (handleProxyRequest ex_rangeError ex_fetch_plain ex_request))"
    by (simp_all add: ex_request_calls)
  have f: "ex_fetch_redirected ''https://example.com/foo?x=1'' (request_init_of ex_request) =
      Inr (ex_upstream\<lparr>up_redirected := True, up_url := ''https://www.example.com/foo?x=1''\<rparr>)"
    "ex_fetch_plain ''https://example.com/foo?x=1'' (request_init_of ex_request) =
      Inr (ex_upstream\<lparr>up_headers := [(''ETag'', ''abc'')]\<rparr>)"
    by (simp_all add: ex_fetch_redirected_def ex_fetch_plain_def)
  have s: "200 \<le> up_status (ex_upstream\<lparr>up_redirected := True,
               up_url := ''https://www.example.com/foo?x=1''\<rparr>)"
    "up_status (ex_upstream\<lparr>up_redirected := True,
               up_url := ''https://www.example.com/foo?x=1''\<rparr>) \<le> 599"
    "200 \<le> up_status (ex_upstream\<lparr>up_headers := [(''ETag'', ''abc'')]\<rparr>)"
    "up_status (ex_upstream\<lparr>up_headers := [(''ETag'', ''abc'')]\<rparr>) \<le> 599"
    by (simp_all add: ex_upstream_def)
  have g: "headers_get [(''ETag'', ''abc'')] ''x-redirected-url'' = None"
    by (simp add: headers_get_def name_eval)
  show ?thesis
    using c f g redirected_url_header [OF c(1) f(1) s(1,2)]
      redirected_url_header [OF c(2) f(2) s(3,4)]
    by (simp add: ex_upstream_def split: sum.splits)
qed

text \<open>
  \<open>x-redirected-url\<close> is in the Exposed Outbound Header Set, so the copying loop relays
  it: without any redirect the response carries the header that upstream sent.
\<close>

theorem redirected_url_header_counterexample:
  "ex_fetch_ok ''https://example.com/foo?x=1'' (request_init_of ex_request) = Inr ex_upstream
   \<and> snd (handleProxyRequest ex_rangeError ex_fetch_ok ex_request) =
       [(''https://example.com/foo?x=1'', request_init_of ex_request)]
   \<and> \<not> up_redirected ex_upstream
   \<and> fst (serve_fetch ex_rangeError ex_fetch_ok ex_request) =
       Inr \<lparr>resp_status = 200, resp_statusText = ''OK'', resp_headers = outHeaders ex_upstream,
            resp_body = Stream ''hello''\<rparr>
   \<and> headers_get (outHeaders ex_upstream) ''x-redirected-url'' = Some ''https://other.example/''"
proof -
  have f: "ex_fetch_ok ''https://example.com/foo?x=1'' (request_init_of ex_request) =
      Inr ex_upstream"
    by (simp add: ex_fetch_ok_def)
  have n: "\<not> up_redirected ex_upstream"
    by (simp add: ex_upstream_def)
  have g: "headers_get (up_headers ex_upstream) ''x-redirected-url'' =
             Some ''https://other.example/''"
    by (simp add: ex_upstream_def headers_get_def name_eval)
  show ?thesis
    using f n g ex_request_calls [of ex_rangeError ex_fetch_ok]
    by (simp add: ex_fetch_ok_headers outHeaders_redirected_url)
qed

text \<open>
  A status that \<open>new Response\<close> refuses: the handler throws after the call, and the
  client receives the 500 envelope of the server, which has the content type alone.
\<close>

lemma status_999_refused:
  "fst (handleProxyRequest ex_rangeError ex_fetch_999 ex_request) =
     Inl (Error ''The status provided is outside the range [200, 599]'')
   \<and> (case fst (serve_fetch ex_rangeError ex_fetch_999 ex_request) of
         Inl err \<Rightarrow> False
       | Inr response \<Rightarrow>
           resp_status response = 500
           \<and> headers_get (resp_headers response) ''x-redirected-url'' = None)"
proof -
  have c: "(''https://example.com/foo?x=1'', request_init_of ex_request)
      \<in> set (snd (handleProxyRequest ex_rangeError ex_fetch_999 ex_request))"
    by (simp add: ex_request_calls)
  have f: "ex_fetch_999 ''https://example.com/foo?x=1'' (request_init_of ex_request) =
      Inr (ex_upstream\<lparr>up_status := 999, up_redirected := True,
                       up_url := ''https://www.example.com/foo?x=1''\<rparr>)"
    by (simp add: ex_fetch_999_def)
  have s: "\<not> (200 \<le> up_status (ex_upstream\<lparr>up_status := 999, up_redirected := True,
                       up_url := ''https://www.example.com/foo?x=1''\<rparr>)
              \<and> up_status (ex_upstream\<lparr>up_status := 999, up_redirected := True,
                       up_url := ''https://www.example.com/foo?x=1''\<rparr>) \<le> 599)"
    by simp
  have g: "headers_get [(''content-type'', ''application/json; charset=utf-8'')]
             ''x-redirected-url'' = None"
    by (simp add: headers_get_def name_eval)
  show ?thesis
    using handler_refused [OF c f s] serve_fetch_refused [OF c f s] g
    by (simp add: ex_rangeError_def)
qed

end
